theory Spec2Isabelle
  imports Main "HOL-Library.Char_ord" "HOL-Library.List_Lexorder"
begin

section \<open>Cache service (src/services/cache.service.ts)\<close>

text \<open>
  A cache entry carries its payload, the clock reading at which it was stored and its
  time to live, both in milliseconds. The cache itself is the \<open>Map\<close> from keys to
  entries held by the singleton. Every operation that reads \<open>Date.now()\<close> takes the
  clock reading as the argument \<open>now\<close>; every operation that mutates the map returns
  the new map.
\<close>

record 'a CacheEntry =
  data :: 'a
  timestamp :: int
  ttl :: int

type_synonym 'a cache = "string \<rightharpoonup> 'a CacheEntry"

definition defaultTTL :: int where
  "defaultTTL = 5 * 60 * 1000"

text \<open>\<open>set(key, data, ttl?)\<close>: the optional \<open>ttl\<close> falls back to the default.\<close>

definition CacheService_set :: "'a cache \<Rightarrow> int \<Rightarrow> string \<Rightarrow> 'a \<Rightarrow> int option \<Rightarrow> 'a cache" where
  "CacheService_set cache now key d ttl_arg =
     (let entry = \<lparr> data = d, timestamp = now,
                     ttl = (case ttl_arg of None \<Rightarrow> defaultTTL | Some t \<Rightarrow> t) \<rparr>
      in cache(key \<mapsto> entry))"

text \<open>
  \<open>get(key)\<close>: \<open>None\<close> stands for the \<open>null\<close> the method returns; the second
  component is the map after the call (an expired entry is deleted).
\<close>

definition CacheService_get :: "'a cache \<Rightarrow> int \<Rightarrow> string \<Rightarrow> 'a option \<times> 'a cache" where
  "CacheService_get cache now key =
     (case cache key of
        None \<Rightarrow> (None, cache)
      | Some entry \<Rightarrow>
          (let isExpired = now - timestamp entry > ttl entry
           in if isExpired then (None, cache(key := None))
              else (Some (data entry), cache)))"

text \<open>
  \<open>generateKey(owner, repo, suffix?)\<close>: the suffix is tested for truthiness, so both a
  missing suffix and the empty string give the base key.
\<close>

definition generateKey :: "string \<Rightarrow> string \<Rightarrow> string option \<Rightarrow> string" where
  "generateKey owner repo suffix =
     (let base = owner @ ''/'' @ repo
      in case suffix of
           None \<Rightarrow> base
         | Some s \<Rightarrow> if s \<noteq> [] then base @ '':'' @ s else base)"

section \<open>Validator (src/utils/validator.ts)\<close>

text \<open>
  A string is the list of its code units; \<open>length\<close> counts them as the \<open>length\<close>
  property does. Characters are eight-bit, so the white space that \<open>trim\<close> strips
  is the part of ECMAScript's \<open>WhiteSpace\<close> and \<open>LineTerminator\<close> sets below 256:
  tab, line feed, vertical tab, form feed, carriage return, space and no-break space.
\<close>

definition isWhiteSpace :: "char \<Rightarrow> bool" where
  "isWhiteSpace c =
     (c \<in> set [CHR 0x09, CHR 0x0A, CHR 0x0B, CHR 0x0C, CHR 0x0D, CHR 0x20, CHR 0xA0])"

definition trim :: "string \<Rightarrow> string" where
  "trim s = rev (dropWhile isWhiteSpace (rev (dropWhile isWhiteSpace s)))"

definition startsWith :: "string \<Rightarrow> string \<Rightarrow> bool" where
  "startsWith s p = (take (length p) s = p)"

text \<open>
  The character class \<open>[a-f0-9]\<close> under the \<open>i\<close> flag, and the whole pattern
  \<open>/^[a-f0-9]+$/i\<close>: one or more characters of the class, then the end of the input.
\<close>

definition hexClass :: "char \<Rightarrow> bool" where
  "hexClass c = (c \<in> set ''abcdef0123456789'' \<or> c \<in> set ''ABCDEF'')"

fun hexPattern_test :: "string \<Rightarrow> bool" where
  "hexPattern_test [] = False"
| "hexPattern_test (c # cs) = (hexClass c \<and> (cs = [] \<or> hexPattern_test cs))"

text \<open>
  \<open>isValidTokenFormat(token)\<close>. The argument is a string, so of the guard
  \<open>!token || typeof token !== 'string'\<close> only the empty string is left.
\<close>

definition isValidTokenFormat :: "string \<Rightarrow> bool" where
  "isValidTokenFormat token =
     (if token = [] then False
      else (let trimmed = trim token
            in 40 \<le> length trimmed \<and>
               (startsWith trimmed ''ghp_'' \<or>
                startsWith trimmed ''github_pat_'' \<or>
                hexPattern_test trimmed)))"

text \<open>What the specification calls a purely hexadecimal string.\<close>

definition isHexDigit :: "char \<Rightarrow> bool" where
  "isHexDigit c = (c \<in> set ''0123456789abcdefABCDEF'')"

definition purelyHex :: "string \<Rightarrow> bool" where
  "purelyHex s = list_all isHexDigit s"

text \<open>The acceptance condition of the specification, read on the string \<open>s\<close>.\<close>

definition tokenShape :: "string \<Rightarrow> bool" where
  "tokenShape s =
     (40 \<le> length s \<and> (startsWith s ''ghp_'' \<or> startsWith s ''github_pat_'' \<or> purelyHex s))"

section \<open>Data model (src/types/github.types.ts)\<close>

record GitHubUser =
  login :: string
  user_id :: int
  avatar_url :: string
  user_html_url :: string

record GitHubLabel =
  label_id :: int
  name :: string
  color :: string
  description :: "string option"

record PullRequest =
  pr_id :: int
  number :: int
  title :: string
  pr_state :: string
  user :: GitHubUser
  body :: "string option"
  created_at :: string
  updated_at :: string
  closed_at :: "string option"
  merged_at :: "string option"
  html_url :: string
  draft :: bool
  labels :: "GitHubLabel list"
  requested_reviewers :: "GitHubUser list"
  comments :: int
  review_comments :: int
  commits :: int
  additions :: int
  deletions :: int
  changed_files :: int

record PaginationInfo =
  page :: int
  perPage :: int
  hasNextPage :: bool
  totalFetched :: int

text \<open>
  A number that decides how far the page loop runs: \<open>maxPages\<close> reaches
  \<open>fetchPullRequests\<close> as a literal or as the value of \<open>parseInt\<close> (src/index.ts), which
  is an integer or, for a text that is no number, \<open>NaN\<close>. Every comparison with \<open>NaN\<close> is
  false.
\<close>

datatype js_number = Number int | NaN

fun le_number :: "int \<Rightarrow> js_number \<Rightarrow> bool" where
  "le_number i (Number m) = (i \<le> m)"
| "le_number i NaN = False"

text \<open>
  Optional fields are options; \<open>None\<close> is \<open>undefined\<close>. The strings that the
  interfaces restrict to a few literals (\<open>state\<close>, \<open>sort\<close>, \<open>direction\<close>, the sort field, the
  display format) are plain strings, as they are when the program runs. Numbers are
  integers, except \<open>maxPages\<close>, which can also be \<open>NaN\<close>; \<open>perPage\<close> is only passed on
  to the remote API and into the summary.
\<close>

record FetchPRsOptions =
  owner :: string
  repo :: string
  state_opt :: "string option"
  sort_opt :: "string option"
  direction_opt :: "string option"
  perPage_opt :: "int option"
  maxPages_opt :: "js_number option"

record FilterOptions =
  author :: "string option"
  label :: "string option"
  minComments :: "int option"

record SortOptions =
  sort_field :: string
  sort_direction :: string

section \<open>Arrays as objects\<close>

text \<open>
  Where a property is about which array object a function writes to, arrays live in a
  store: the list of all array objects allocated so far, an array's reference being its
  index. Allocation appends a new object and returns its reference.
\<close>

type_synonym 'a store = "'a list list"

definition alloc :: "'a store \<Rightarrow> 'a list \<Rightarrow> nat \<times> 'a store" where
  "alloc h xs = (length h, h @ [xs])"

section \<open>Query stage (src/unnamed/part_000, the tests' utils/formatter)\<close>

subsection \<open>filterPullRequests\<close>

text \<open>
  \<open>String.prototype.toLowerCase\<close> is the platform's; it is the parameter \<open>toLowerCase\<close>.
  The author and label criteria are tested for truthiness (an empty string is no
  criterion), the comment threshold for being defined.
\<close>

definition filterPullRequests ::
    "(string \<Rightarrow> string) \<Rightarrow> PullRequest list \<Rightarrow> FilterOptions \<Rightarrow> PullRequest list" where
  "filterPullRequests toLowerCase prs options =
     (let filtered = prs;
          filtered =
            (case author options of
               None \<Rightarrow> filtered
             | Some a \<Rightarrow>
                 if a \<noteq> [] then
                   filter (\<lambda>pr. toLowerCase (login (user pr)) = toLowerCase a) filtered
                 else filtered);
          filtered =
            (case label options of
               None \<Rightarrow> filtered
             | Some lb \<Rightarrow>
                 if lb \<noteq> [] then
                   filter (\<lambda>pr. list_ex (\<lambda>l. toLowerCase (name l) = toLowerCase lb) (labels pr))
                     filtered
                 else filtered);
          filtered =
            (case minComments options of
               None \<Rightarrow> filtered
             | Some m \<Rightarrow> filter (\<lambda>pr. comments pr + review_comments pr \<ge> m) filtered)
      in filtered)"

text \<open>
  The same function on the store: \<open>[...prs]\<close> allocates a copy, and each
  \<open>Array.prototype.filter\<close> allocates its result; the reference returned is the last
  one assigned to \<open>filtered\<close>.
\<close>

definition filterPullRequests_store ::
    "(string \<Rightarrow> string) \<Rightarrow> PullRequest store \<Rightarrow> nat \<Rightarrow> FilterOptions \<Rightarrow> nat \<times> PullRequest store" where
  "filterPullRequests_store toLowerCase h prs options =
     (let (filtered, h) = alloc h (h ! prs);
          (filtered, h) =
            (case author options of
               None \<Rightarrow> (filtered, h)
             | Some a \<Rightarrow>
                 if a \<noteq> [] then
                   alloc h (filter (\<lambda>pr. toLowerCase (login (user pr)) = toLowerCase a)
                              (h ! filtered))
                 else (filtered, h));
          (filtered, h) =
            (case label options of
               None \<Rightarrow> (filtered, h)
             | Some lb \<Rightarrow>
                 if lb \<noteq> [] then
                   alloc h (filter (\<lambda>pr. list_ex (\<lambda>l. toLowerCase (name l) = toLowerCase lb)
                                            (labels pr))
                              (h ! filtered))
                 else (filtered, h));
          (filtered, h) =
            (case minComments options of
               None \<Rightarrow> (filtered, h)
             | Some m \<Rightarrow>
                 alloc h (filter (\<lambda>pr. comments pr + review_comments pr \<ge> m) (h ! filtered)))
      in (filtered, h))"

subsection \<open>sortPullRequests\<close>

text \<open>
  \<open>Array.prototype.sort\<close> is stable, so for a consistent comparison function its result
  is the one stable insertion computes: an element goes in front of the first element
  it does not compare greater than. Elements are inserted from the last to the first, so
  that of two elements comparing equal the earlier one ends up in front.
\<close>

fun insert_by :: "('a \<Rightarrow> 'a \<Rightarrow> int) \<Rightarrow> 'a \<Rightarrow> 'a list \<Rightarrow> 'a list" where
  "insert_by cmp x [] = [x]"
| "insert_by cmp x (y # ys) = (if cmp x y \<le> 0 then x # y # ys else y # insert_by cmp x ys)"

definition array_sort :: "('a \<Rightarrow> 'a \<Rightarrow> int) \<Rightarrow> 'a list \<Rightarrow> 'a list" where
  "array_sort cmp xs = foldr (insert_by cmp) xs []"

text \<open>
  The comparison function passed to \<open>sort\<close>. \<open>getTime\<close> reads a timestamp string as
  milliseconds (\<open>new Date(s).getTime()\<close>) and \<open>localeCompare\<close> is the platform's string
  collation; both are parameters. A field outside the four of the \<open>switch\<close> leaves
  \<open>compareValue\<close> at 0.
\<close>

definition compareValue ::
    "(string \<Rightarrow> int) \<Rightarrow> (string \<Rightarrow> string \<Rightarrow> int) \<Rightarrow> string \<Rightarrow> PullRequest \<Rightarrow> PullRequest \<Rightarrow> int" where
  "compareValue getTime localeCompare field a b =
     (if field = ''created'' then getTime (created_at a) - getTime (created_at b)
      else if field = ''updated'' then getTime (updated_at a) - getTime (updated_at b)
      else if field = ''comments'' then
        comments a + review_comments a - (comments b + review_comments b)
      else if field = ''title'' then localeCompare (title a) (title b)
      else 0)"

definition comparePullRequests ::
    "(string \<Rightarrow> int) \<Rightarrow> (string \<Rightarrow> string \<Rightarrow> int) \<Rightarrow> SortOptions \<Rightarrow> PullRequest \<Rightarrow> PullRequest \<Rightarrow> int" where
  "comparePullRequests getTime localeCompare options a b =
     (let compareValue = compareValue getTime localeCompare (sort_field options) a b
      in if sort_direction options = ''asc'' then compareValue else - compareValue)"

definition sortPullRequests ::
    "(string \<Rightarrow> int) \<Rightarrow> (string \<Rightarrow> string \<Rightarrow> int) \<Rightarrow> PullRequest list \<Rightarrow> SortOptions \<Rightarrow> PullRequest list" where
  "sortPullRequests getTime localeCompare prs options =
     (let sorted = prs
      in array_sort (comparePullRequests getTime localeCompare options) sorted)"

text \<open>
  The same function on the store: \<open>[...prs]\<close> allocates the copy \<open>sorted\<close>, and
  \<open>sorted.sort\<close> rearranges that object in place.
\<close>

definition sortPullRequests_store ::
    "(string \<Rightarrow> int) \<Rightarrow> (string \<Rightarrow> string \<Rightarrow> int) \<Rightarrow> PullRequest store \<Rightarrow> nat \<Rightarrow> SortOptions
      \<Rightarrow> nat \<times> PullRequest store" where
  "sortPullRequests_store getTime localeCompare h prs options =
     (let (sorted, h) = alloc h (h ! prs);
          h = h[sorted := array_sort (comparePullRequests getTime localeCompare options) (h ! sorted)]
      in (sorted, h))"

text \<open>
  A comparison function is consistent when it orders its arguments as a total preorder:
  one argument compares less exactly when the other compares greater, and
  "not greater" is transitive.
\<close>

definition consistentCompare :: "('a \<Rightarrow> 'a \<Rightarrow> int) \<Rightarrow> bool" where
  "consistentCompare cmp =
     ((\<forall>a b. (cmp a b < 0) = (0 < cmp b a)) \<and>
      (\<forall>a b c. cmp a b \<le> 0 \<and> cmp b c \<le> 0 \<longrightarrow> cmp a c \<le> 0))"

text \<open>No two positions of the list hold elements that compare equal.\<close>

fun noTies :: "('a \<Rightarrow> 'a \<Rightarrow> int) \<Rightarrow> 'a list \<Rightarrow> bool" where
  "noTies cmp [] = True"
| "noTies cmp (x # xs) = (list_all (\<lambda>y. cmp x y \<noteq> 0) xs \<and> noTies cmp xs)"

text \<open>Code-unit order of strings, as a comparison function with results -1, 0 and 1.\<close>

definition codeUnitCompare :: "string \<Rightarrow> string \<Rightarrow> int" where
  "codeUnitCompare a b = (if a < b then - 1 else if a = b then 0 else 1)"

section \<open>GitHub service (src/services/github.service.ts)\<close>

subsection \<open>The remote API\<close>

text \<open>
  One call of \<open>octokit.pulls.list\<close> takes a request and either resolves to a response
  (the page's items and the \<open>Link\<close> header, \<open>None\<close> when the header is missing) or
  rejects with an error. What the client throws is an \<open>Error\<close> with a message, and with
  a numeric \<open>status\<close> when the failure is an HTTP response. The remote API as a whole is
  the function from requests to outcomes.
\<close>

record Request =
  req_owner :: string
  req_repo :: string
  req_state :: string
  req_sort :: string
  req_direction :: string
  per_page :: int
  req_page :: int

record Response =
  response_data :: "PullRequest list"
  link :: "string option"

record ThrownError =
  status :: "int option"
  message :: string

type_synonym upstream = "Request \<Rightarrow> ThrownError + Response"

record FetchResult =
  result_prs :: "PullRequest list"
  pagination :: PaginationInfo

text \<open>\<open>String.prototype.includes\<close>.\<close>

fun str_includes :: "string \<Rightarrow> string \<Rightarrow> bool" where
  "str_includes [] sub = (sub = [])"
| "str_includes (c # cs) sub = (startsWith (c # cs) sub \<or> str_includes cs sub)"

subsection \<open>mapToPullRequest\<close>

text \<open>
  The items of a page are well-formed: each has the fields of a pull request, and the
  mapping copies them field by field.
\<close>

definition mapToUser :: "GitHubUser \<Rightarrow> GitHubUser" where
  "mapToUser u =
     \<lparr> login = login u, user_id = user_id u, avatar_url = avatar_url u,
       user_html_url = user_html_url u \<rparr>"

definition mapToPullRequest :: "PullRequest \<Rightarrow> PullRequest" where
  "mapToPullRequest pr =
     \<lparr> pr_id = pr_id pr, number = number pr, title = title pr, pr_state = pr_state pr,
       user = mapToUser (user pr),
       body = body pr, created_at = created_at pr, updated_at = updated_at pr,
       closed_at = closed_at pr, merged_at = merged_at pr, html_url = html_url pr,
       draft = draft pr,
       labels = map (\<lambda>l. \<lparr> label_id = label_id l, name = name l, color = color l,
                             description = description l \<rparr>) (labels pr),
       requested_reviewers = map mapToUser (requested_reviewers pr),
       comments = comments pr, review_comments = review_comments pr, commits = commits pr,
       additions = additions pr, deletions = deletions pr,
       changed_files = changed_files pr \<rparr>"

subsection \<open>The page loop of fetchPullRequests\<close>

text \<open>
  The \<open>while\<close> loop, with its three variables \<open>allPRs\<close>, \<open>currentPage\<close> and
  \<open>hasNextPage\<close> (here \<open>hasNext\<close>) as arguments. The argument \<open>req\<close> holds the
  request fields that do not change from page to page. The calls made to the remote API
  are an effect: each request issued is appended to \<open>log\<close>, which is returned with the
  outcome. The outcome is the error thrown by a page request, or the values of the three
  variables when the loop is left.
\<close>

function pageLoop ::
    "upstream \<Rightarrow> Request \<Rightarrow> js_number \<Rightarrow> PullRequest list \<Rightarrow> int \<Rightarrow> bool \<Rightarrow> Request list
      \<Rightarrow> (ThrownError + PullRequest list \<times> int \<times> bool) \<times> Request list" where
  \<open>pageLoop list req maxPages allPRs currentPage hasNext log =
     (if hasNext \<and> le_number currentPage maxPages then
        (case list (req\<lparr> req_page := currentPage \<rparr>) of
           Inl error \<Rightarrow> (Inl error, log @ [req\<lparr> req_page := currentPage \<rparr>])
         | Inr response \<Rightarrow>
             if length (response_data response) = 0 then
               (Inr (allPRs, currentPage, False), log @ [req\<lparr> req_page := currentPage \<rparr>])
             else
               pageLoop list req maxPages
                 (allPRs @ map mapToPullRequest (response_data response))
                 (currentPage + 1)
                 (case link response of
                    None \<Rightarrow> False
                  | Some linkHeader \<Rightarrow>
                      if linkHeader \<noteq> [] then str_includes linkHeader ''rel="next"'' else False)
                 (log @ [req\<lparr> req_page := currentPage \<rparr>]))
      else (Inr (allPRs, currentPage, hasNext), log))\<close>
  by pat_completeness auto
termination
  by (relation "measure (\<lambda>(list, req, maxPages, allPRs, currentPage, hasNext, log).
                   case maxPages of Number m \<Rightarrow> nat (m + 1 - currentPage) | NaN \<Rightarrow> 0)")
     (auto elim: le_number.elims)

declare pageLoop.simps [simp del]

subsection \<open>The catch block of fetchPullRequests\<close>

text \<open>The message of the \<open>Error\<close> that the catch block throws for a caught error.\<close>

definition fetchErrorMessage :: "string \<Rightarrow> string \<Rightarrow> ThrownError \<Rightarrow> string" where
  "fetchErrorMessage ow rp error =
     (case status error of
        Some st \<Rightarrow>
          if st = 404 then
            ''Repository '' @ ow @ ''/'' @ rp @ '' not found or you don't have access''
          else if st = 401 then ''Authentication failed. Please check your GitHub token''
          else if st = 403 then
            (if str_includes (message error) ''rate limit'' then
               ''GitHub API rate limit exceeded. Please try again later''
             else ''Access forbidden. Please check your token permissions'')
          else ''Failed to fetch pull requests: '' @ message error
      | None \<Rightarrow> ''Failed to fetch pull requests: '' @ message error)"

subsection \<open>fetchPullRequests\<close>

text \<open>The cache key computed from the options, with the defaults of the destructuring.\<close>

definition cacheKeyOf :: "FetchPRsOptions \<Rightarrow> string" where
  "cacheKeyOf options =
     (let state = (case state_opt options of None \<Rightarrow> ''open'' | Some x \<Rightarrow> x);
          sort = (case sort_opt options of None \<Rightarrow> ''created'' | Some x \<Rightarrow> x);
          direction = (case direction_opt options of None \<Rightarrow> ''desc'' | Some x \<Rightarrow> x)
      in generateKey (owner options) (repo options)
           (Some (''prs-'' @ state @ ''-'' @ sort @ ''-'' @ direction)))"

text \<open>
  \<open>fetchPullRequests(options)\<close> on the remote API \<open>list\<close> and the cache \<open>cache\<close>.
  \<open>now\<close> is the clock when the cache is read and \<open>later\<close> the clock when the result is
  stored. The value is the outcome (the message of the error thrown, or the result
  returned), the cache after the call and the requests issued.
\<close>

definition fetchPullRequests ::
    "upstream \<Rightarrow> FetchResult cache \<Rightarrow> int \<Rightarrow> int \<Rightarrow> FetchPRsOptions
      \<Rightarrow> (string + FetchResult) \<times> FetchResult cache \<times> Request list" where
  "fetchPullRequests list cache now later options =
     (let state = (case state_opt options of None \<Rightarrow> ''open'' | Some x \<Rightarrow> x);
          sort = (case sort_opt options of None \<Rightarrow> ''created'' | Some x \<Rightarrow> x);
          direction = (case direction_opt options of None \<Rightarrow> ''desc'' | Some x \<Rightarrow> x);
          perPage = (case perPage_opt options of None \<Rightarrow> 30 | Some x \<Rightarrow> x);
          maxPages = (case maxPages_opt options of None \<Rightarrow> Number 5 | Some x \<Rightarrow> x);
          cacheKey = cacheKeyOf options;
          (cached, cache) = CacheService_get cache now cacheKey
      in case cached of
           Some hit \<Rightarrow> (Inr hit, cache, [])
         | None \<Rightarrow>
             (case pageLoop list
                     \<lparr> req_owner = owner options, req_repo = repo options, req_state = state,
                       req_sort = sort, req_direction = direction, per_page = perPage,
                       req_page = 1 \<rparr>
                     maxPages [] 1 True [] of
                (Inr (allPRs, currentPage, hasNext), log) \<Rightarrow>
                  (let result =
                         \<lparr> result_prs = allPRs,
                           pagination =
                             \<lparr> page = currentPage - 1, perPage = perPage,
                               hasNextPage = hasNext,
                               totalFetched = int (length allPRs) \<rparr> \<rparr>
                   in (Inr result, CacheService_set cache later cacheKey result None, log))
              | (Inl error, log) \<Rightarrow>
                  (Inl (fetchErrorMessage (owner options) (repo options) error), cache, log)))"

text \<open>
  What the outcome of a page request says: that a further page exists, that the page has no
  items, and which items it contributes to the accumulated list.
\<close>

definition indicatesNext :: "ThrownError + Response \<Rightarrow> bool" where
  \<open>indicatesNext outcome =
     (case outcome of
        Inl error \<Rightarrow> False
      | Inr response \<Rightarrow>
          (case link response of None \<Rightarrow> False | Some l \<Rightarrow> str_includes l ''rel="next"''))\<close>

definition zeroItems :: "ThrownError + Response \<Rightarrow> bool" where
  "zeroItems outcome =
     (case outcome of Inl error \<Rightarrow> False | Inr response \<Rightarrow> response_data response = [])"

definition itemsOf :: "ThrownError + Response \<Rightarrow> PullRequest list" where
  "itemsOf outcome =
     (case outcome of
        Inl error \<Rightarrow> []
      | Inr response \<Rightarrow> map mapToPullRequest (response_data response))"

text \<open>The request fields that \<open>fetchPullRequests\<close> passes for every page, here with page 1.\<close>

definition firstRequest :: "FetchPRsOptions \<Rightarrow> Request" where
  "firstRequest options =
     \<lparr> req_owner = owner options, req_repo = repo options,
       req_state = (case state_opt options of None \<Rightarrow> ''open'' | Some x \<Rightarrow> x),
       req_sort = (case sort_opt options of None \<Rightarrow> ''created'' | Some x \<Rightarrow> x),
       req_direction = (case direction_opt options of None \<Rightarrow> ''desc'' | Some x \<Rightarrow> x),
       per_page = (case perPage_opt options of None \<Rightarrow> 30 | Some x \<Rightarrow> x),
       req_page = 1 \<rparr>"

section \<open>Presenter (src/unnamed/part_000, the tests' utils/formatter)\<close>

text \<open>
  \<open>chalk.yellow\<close>: the text between the escape sequences that switch the yellow
  foreground on and off when colours are enabled, the text itself when they are not.
\<close>

definition chalk_yellow :: "bool \<Rightarrow> string \<Rightarrow> string" where
  "chalk_yellow colours s =
     (if colours then CHR 0x1B # ''[33m'' @ s @ CHR 0x1B # ''[39m'' else s)"

text \<open>
  \<open>formatPullRequests(prs, format)\<close>. The three renderers of a non-empty list
  (\<open>JSON.stringify(prs, null, 2)\<close>, \<open>formatDetailed\<close> and \<open>formatCompact\<close>) are
  parameters; \<open>compact\<close> is also the \<open>default\<close> branch of the \<open>switch\<close>.
\<close>

definition formatPullRequests ::
    "bool \<Rightarrow> (PullRequest list \<Rightarrow> string) \<Rightarrow> (PullRequest list \<Rightarrow> string)
      \<Rightarrow> (PullRequest list \<Rightarrow> string) \<Rightarrow> PullRequest list \<Rightarrow> string \<Rightarrow> string" where
  "formatPullRequests colours stringify formatDetailed formatCompact prs format =
     (if length prs = 0 then chalk_yellow colours ''No pull requests found.''
      else if format = ''json'' then stringify prs
      else if format = ''detailed'' then formatDetailed prs
      else formatCompact prs)"

section \<open>Fixtures (src/__tests__/formatter.test.ts)\<close>

text \<open>
  The pull request the formatter's tests start from (its two dates, computed from the
  clock there, are fixed here), and the two lists the tests filter and sort.
\<close>

definition mockPR :: PullRequest where
  "mockPR = \<lparr> pr_id = 1, number = 123, title = ''Test PR'', pr_state = ''open'',
     user = \<lparr> login = ''testuser'', user_id = 1,
              avatar_url = ''https://example.com/avatar.jpg'',
              user_html_url = ''https://github.com/testuser'' \<rparr>,
     body = Some ''This is a test pull request'',
     created_at = ''2024-01-01T00:00:00.000Z'',
     updated_at = ''2024-01-02T00:00:00.000Z'',
     closed_at = None, merged_at = None,
     html_url = ''https://github.com/owner/repo/pull/123'',
     draft = False,
     labels = [\<lparr> label_id = 1, name = ''bug'', color = ''ff0000'', description = Some ''Bug fix'' \<rparr>,
               \<lparr> label_id = 2, name = ''feature'', color = ''00ff00'',
                 description = Some ''New feature'' \<rparr>],
     requested_reviewers = [\<lparr> login = ''reviewer1'', user_id = 2,
                               avatar_url = ''https://example.com/reviewer.jpg'',
                               user_html_url = ''https://github.com/reviewer1'' \<rparr>],
     comments = 5, review_comments = 3, commits = 10, additions = 100, deletions = 50,
     changed_files = 5 \<rparr>"

definition filterFixture :: "PullRequest list" where
  "filterFixture =
     [mockPR\<lparr> user := (user mockPR)\<lparr> login := ''alice'' \<rparr> \<rparr>,
      mockPR\<lparr> number := 124, user := (user mockPR)\<lparr> login := ''bob'' \<rparr> \<rparr>,
      mockPR\<lparr> number := 125, comments := 0, review_comments := 0 \<rparr>]"

definition sortFixture :: "PullRequest list" where
  "sortFixture =
     [mockPR\<lparr> number := 1, title := ''Zebra'', comments := 5, review_comments := 0 \<rparr>,
      mockPR\<lparr> number := 2, title := ''Alpha'', comments := 10, review_comments := 5 \<rparr>,
      mockPR\<lparr> number := 3, title := ''Beta'', comments := 2, review_comments := 1 \<rparr>]"

text \<open>Lower-casing of the ASCII letters, a \<open>toLowerCase\<close> for strings of ASCII characters.\<close>

definition asciiLower :: "string \<Rightarrow> string" where
  "asciiLower s =
     map (\<lambda>c. if CHR ''A'' \<le> c \<and> c \<le> CHR ''Z'' then char_of (of_char c + (32::nat)) else c) s"

section \<open>Fixtures for the fetcher\<close>

text \<open>
  Options naming only the repository \<open>o/r\<close>, and remote APIs: a repository without pull
  requests; one whose every page holds one pull request and announces a next page; one
  with two pages; one whose second page request is rejected as rate limited; and one
  that answers every request with 404.
\<close>

definition plainOptions :: FetchPRsOptions where
  "plainOptions =
     \<lparr> owner = ''o'', repo = ''r'', state_opt = None, sort_opt = None, direction_opt = None,
       perPage_opt = None, maxPages_opt = None \<rparr>"

definition nextLink :: string where
  \<open>nextLink = ''<https://api.github.com/repositories/1/pulls?page=2>; rel="next"''\<close>

definition prevLink :: string where
  \<open>prevLink = ''<https://api.github.com/repositories/1/pulls?page=1>; rel="prev"''\<close>

definition emptyRepo :: upstream where
  "emptyRepo request = Inr \<lparr> response_data = [], link = None \<rparr>"

definition endlessRepo :: upstream where
  "endlessRepo request =
     Inr \<lparr> response_data = [mockPR\<lparr> number := req_page request \<rparr>], link = Some nextLink \<rparr>"

definition twoPageRepo :: upstream where
  "twoPageRepo request =
     (if req_page request = 1 then
        Inr \<lparr> response_data = [mockPR\<lparr> number := 1 \<rparr>, mockPR\<lparr> number := 2 \<rparr>],
              link = Some nextLink \<rparr>
      else if req_page request = 2 then
        Inr \<lparr> response_data = [mockPR\<lparr> number := 3 \<rparr>], link = Some prevLink \<rparr>
      else Inr \<lparr> response_data = [], link = None \<rparr>)"

definition rateLimitedRepo :: upstream where
  "rateLimitedRepo request =
     (if req_page request = 1 then
        Inr \<lparr> response_data = [mockPR\<lparr> number := 1 \<rparr>], link = Some nextLink \<rparr>
      else Inl \<lparr> status = Some 403, message = ''API rate limit exceeded for user ID 1.'' \<rparr>)"

definition missingRepo :: upstream where
  "missingRepo request = Inl \<lparr> status = Some 404, message = ''Not Found'' \<rparr>"

text \<open>The result of an earlier fetch of a repository without pull requests.\<close>

definition emptyResult :: FetchResult where
  "emptyResult =
     \<lparr> result_prs = [],
       pagination = \<lparr> page = 0, perPage = 30, hasNextPage = False, totalFetched = 0 \<rparr> \<rparr>"

definition cappedOptions :: FetchPRsOptions where
  "cappedOptions = plainOptions\<lparr> maxPages_opt := Some (Number 2) \<rparr>"

definition noPagesOptions :: FetchPRsOptions where
  "noPagesOptions = plainOptions\<lparr> maxPages_opt := Some (Number 0) \<rparr>"

definition nanOptions :: FetchPRsOptions where
  "nanOptions = plainOptions\<lparr> maxPages_opt := Some NaN \<rparr>"

definition widerOptions :: FetchPRsOptions where
  "widerOptions =
     plainOptions\<lparr> state_opt := Some ''open'', perPage_opt := Some 100, maxPages_opt := Some (Number 1) \<rparr>"

text \<open>A cache holding that result under the key of \<open>plainOptions\<close>, stored at time 0.\<close>

definition staleCache :: "FetchResult cache" where
  "staleCache = CacheService_set Map.empty 0 (cacheKeyOf plainOptions) emptyResult None"

section \<open>Properties of the cache\<close>

text \<open>
  Claim C4. Reading a key right after it was stored at time \<open>t\<close> returns the stored value
  as long as \<open>now - t\<close> does not exceed the entry's time to live (the given one, or the
  default when none was given) and leaves the map as it is; once \<open>now - t\<close> exceeds it,
  the read returns absent and the entry is gone from the map afterwards; a key that is
  not in the map reads as absent and the map stays as it is. The read has no failure
  branch: its result is always a value-or-absent together with a map.
\<close>

theorem cache_get_after_set:
  fixes c :: "'a cache"
  defines "life a \<equiv> (case a of None \<Rightarrow> defaultTTL | Some x \<Rightarrow> x)"
  shows "(now - t \<le> life a \<longrightarrow>
            CacheService_get (CacheService_set c t k v a) now k
              = (Some v, CacheService_set c t k v a))
       \<and> (now - t > life a \<longrightarrow>
            fst (CacheService_get (CacheService_set c t k v a) now k) = None
          \<and> snd (CacheService_get (CacheService_set c t k v a) now k)
              = (CacheService_set c t k v a)(k := None)
          \<and> k \<notin> dom (snd (CacheService_get (CacheService_set c t k v a) now k)))
       \<and> (c k = None \<longrightarrow> CacheService_get c now k = (None, c))"
  by (simp add: life_def CacheService_get_def CacheService_set_def Let_def)

theorem cache_get_after_set_witness:
  "CacheService_get (CacheService_set (Map.empty :: nat cache) 1000 ''k'' 7 (Some 100)) 1100 ''k''
     = (Some 7, CacheService_set Map.empty 1000 ''k'' 7 (Some 100))
   \<and> fst (CacheService_get (CacheService_set (Map.empty :: nat cache) 1000 ''k'' 7 (Some 100)) 1101 ''k'')
     = None
   \<and> ''k'' \<notin> dom (snd (CacheService_get
                          (CacheService_set (Map.empty :: nat cache) 1000 ''k'' 7 (Some 100)) 1101 ''k''))
   \<and> CacheService_get (CacheService_set (Map.empty :: nat cache) 0 ''k'' 7 None) 300000 ''k''
     = (Some 7, CacheService_set Map.empty 0 ''k'' 7 None)
   \<and> CacheService_get (Map.empty :: nat cache) 5 ''k'' = (None, Map.empty)"
  using cache_get_after_set [of 1100 1000 "Some 100" "Map.empty :: nat cache" "''k''" 7]
        cache_get_after_set [of 1101 1000 "Some 100" "Map.empty :: nat cache" "''k''" 7]
        cache_get_after_set [of 300000 0 None "Map.empty :: nat cache" "''k''" 7]
        cache_get_after_set [of 5 0 None "Map.empty :: nat cache" "''k''" 7]
  by (simp add: defaultTTL_def)

text \<open>
  Claim C10. An empty-string suffix is treated as an absent suffix: the key is
  \<open>owner/repo\<close>, with no trailing colon, exactly as when no suffix is passed.
\<close>

theorem generateKey_empty_suffix:
  "generateKey ow rp (Some []) = generateKey ow rp None
   \<and> generateKey ow rp (Some []) = ow @ ''/'' @ rp"
  by (simp add: generateKey_def)

section \<open>Properties of the validator\<close>

lemma hexClass_isHexDigit: "hexClass c = isHexDigit c"
  by (auto simp: hexClass_def isHexDigit_def)

lemma hexPattern_test_iff: "hexPattern_test s = (s \<noteq> [] \<and> purelyHex s)"
  by (induction s rule: hexPattern_test.induct)
     (auto simp: purelyHex_def hexClass_isHexDigit)

text \<open>
  Claim C6, as stated, on the raw input: the validator would accept exactly the strings
  of the specified shape. It does not: a classic token of 40 characters behind one leading
  space is accepted although the string does not start with \<open>ghp_\<close> and is not
  hexadecimal, and \<open>ghp_\<close> with 35 letters and five trailing spaces (44 characters) is
  rejected although it has the specified shape.
\<close>

theorem isValidTokenFormat_raw_counterexample:
  "isValidTokenFormat ('' ghp_'' @ replicate 36 (CHR ''a''))
   \<and> \<not> tokenShape ('' ghp_'' @ replicate 36 (CHR ''a''))
   \<and> \<not> isValidTokenFormat (''ghp_'' @ replicate 35 (CHR ''a'') @ ''     '')
   \<and> tokenShape (''ghp_'' @ replicate 35 (CHR ''a'') @ ''     '')"
  by code_simp

text \<open>
  Claim C6, amended. The validator accepts a string if and only if the string with its
  leading and trailing white space removed has at least 40 characters and starts with
  \<open>ghp_\<close>, starts with \<open>github_pat_\<close>, or consists purely of hexadecimal characters.
  \<open>ghp_\<close> followed by 40 letters \<open>a\<close> is accepted and \<open>short\<close> is rejected.
\<close>

theorem isValidTokenFormat_trimmed:
  "isValidTokenFormat token = tokenShape (trim token)
   \<and> isValidTokenFormat (''ghp_'' @ replicate 40 (CHR ''a''))
   \<and> \<not> isValidTokenFormat ''short''"
proof -
  have shape: "isValidTokenFormat t = tokenShape (trim t)" for t
  proof (cases "t = []")
    case True
    then show ?thesis
      by (simp add: isValidTokenFormat_def tokenShape_def trim_def)
  next
    case False
    then show ?thesis
      by (auto simp: isValidTokenFormat_def tokenShape_def Let_def hexPattern_test_iff)
  qed
  have accepted: "isValidTokenFormat (''ghp_'' @ replicate 40 (CHR ''a''))"
    by code_simp
  have rejected: "\<not> isValidTokenFormat ''short''"
    by code_simp
  from shape accepted rejected show ?thesis by blast
qed

section \<open>Properties of the query stage\<close>

lemma filter_idem:
  "filterPullRequests lower (filterPullRequests lower prs c) c = filterPullRequests lower prs c"
  by (auto simp: filterPullRequests_def Let_def split: option.splits intro!: filter_cong)

lemma filter_none:
  "filterPullRequests lower prs \<lparr> author = None, label = None, minComments = None \<rparr> = prs"
  by (simp add: filterPullRequests_def)

lemma filter_store:
  assumes "prs < length h"
  shows "snd (filterPullRequests_store lower h prs c) ! prs = h ! prs"
    and "fst (filterPullRequests_store lower h prs c) \<noteq> prs"
    and "snd (filterPullRequests_store lower h prs c) ! fst (filterPullRequests_store lower h prs c)
          = filterPullRequests lower (h ! prs) c"
  using assms
  by (auto simp: filterPullRequests_store_def filterPullRequests_def alloc_def Let_def nth_append
           split: option.splits)

lemma set_insert_by: "set (insert_by c x ys) = insert x (set ys)"
  by (induction ys) auto

lemma distinct_insert_by: "distinct (insert_by c x ys) = (x \<notin> set ys \<and> distinct ys)"
  by (induction ys) (auto simp: set_insert_by)

lemma set_array_sort: "set (array_sort c xs) = set xs"
  by (induction xs) (auto simp: array_sort_def set_insert_by)

lemma distinct_array_sort: "distinct (array_sort c xs) = distinct xs"
  by (induction xs) (auto simp: array_sort_def distinct_insert_by set_array_sort[unfolded array_sort_def])

lemma sorted_insert_by:
  assumes "consistentCompare c" "sorted_wrt (\<lambda>a b. c a b \<le> 0) ys"
  shows "sorted_wrt (\<lambda>a b. c a b \<le> 0) (insert_by c x ys)"
  using assms(2)
proof (induction ys)
  case Nil then show ?case by simp
next
  case (Cons y ys)
  have tr: "\<And>a b d. c a b \<le> 0 \<Longrightarrow> c b d \<le> 0 \<Longrightarrow> c a d \<le> 0"
    using assms(1) unfolding consistentCompare_def by blast
  have tot: "\<And>a b. 0 < c a b \<Longrightarrow> c b a \<le> 0"
    using assms(1) unfolding consistentCompare_def by (metis less_imp_le)
  show ?case
  proof (cases "c x y \<le> 0")
    case True
    with Cons.prems tr show ?thesis by auto
  next
    case False
    with Cons tot show ?thesis by (auto simp: set_insert_by)
  qed
qed

lemma sorted_array_sort:
  "consistentCompare c \<Longrightarrow> sorted_wrt (\<lambda>a b. c a b \<le> 0) (array_sort c xs)"
  by (induction xs) (auto simp: array_sort_def sorted_insert_by)

lemma consistent_neg:
  assumes "consistentCompare c"
  shows "consistentCompare (\<lambda>a b. - c a b)"
proof -
  have flip: "\<And>a b. (c a b < 0) = (0 < c b a)"
    and tr: "\<And>a b d. c a b \<le> 0 \<Longrightarrow> c b d \<le> 0 \<Longrightarrow> c a d \<le> 0"
    using assms unfolding consistentCompare_def by blast+
  have ge: "\<And>a b. (0 \<le> c a b) = (c b a \<le> 0)"
    using flip by (metis not_less)
  have tr': "\<And>a b d. 0 \<le> c a b \<Longrightarrow> 0 \<le> c b d \<Longrightarrow> 0 \<le> c a d"
    using ge tr by blast
  show ?thesis
    unfolding consistentCompare_def
  proof (intro conjI allI impI)
    fix a b
    show "(- c a b < 0) = (0 < - c b a)"
      using flip[of b a] by simp
  next
    fix a b d
    assume "- c a b \<le> 0 \<and> - c b d \<le> 0"
    then show "- c a d \<le> 0"
      using tr'[of a b d] by simp
  qed
qed

lemma consistent_refl: "consistentCompare c \<Longrightarrow> c a a = 0"
  unfolding consistentCompare_def by (metis not_less_iff_gr_or_eq)

lemma noTies_iff:
  assumes "consistentCompare c"
  shows "noTies c xs = (distinct xs \<and> (\<forall>a\<in>set xs. \<forall>b\<in>set xs. a \<noteq> b \<longrightarrow> c a b \<noteq> 0))"
proof (induction xs)
  case Nil then show ?case by simp
next
  case (Cons x xs)
  have sym: "\<And>a b. c a b = 0 \<Longrightarrow> c b a = 0"
    using assms unfolding consistentCompare_def by (metis less_irrefl linorder_neqE_linordered_idom)
  show ?case
    using Cons consistent_refl[OF assms] sym
    by (auto simp: list_all_iff)
qed

lemma strict_sorted_unique:
  assumes "\<And>a b. lt a b \<Longrightarrow> \<not> lt b a"
  shows "sorted_wrt lt xs \<Longrightarrow> sorted_wrt lt ys \<Longrightarrow> set xs = set ys \<Longrightarrow> xs = ys"
proof (induction xs arbitrary: ys)
  case Nil then show ?case by simp
next
  case (Cons a xs)
  then obtain b ys' where ys: "ys = b # ys'" by (cases ys) auto
  have irr: "\<And>a. \<not> lt a a" using assms by blast
  have ab: "a = b"
  proof (rule ccontr)
    assume ne: "a \<noteq> b"
    with Cons.prems ys have "a \<in> set ys'" "b \<in> set xs" by auto
    with Cons.prems ys have "lt b a" "lt a b" by auto
    with assms show False by blast
  qed
  have "a \<notin> set xs" "b \<notin> set ys'" using Cons.prems ys irr by auto
  with Cons.prems ys ab have "set xs = set ys'" by auto
  with Cons ys ab show ?case by auto
qed

lemma sorted_strict:
  "distinct xs \<Longrightarrow> sorted_wrt P xs \<Longrightarrow> sorted_wrt (\<lambda>a b. P a b \<and> a \<noteq> b) xs"
  by (induction xs) auto

text \<open>
  The sort is stable: the items that compare equal to a given item come out in the order
  in which they went in.
\<close>

lemma filter_insert_by:
  assumes "consistentCompare c"
  shows "filter (\<lambda>y. c z y = 0) (insert_by c x ys)
           = (if c z x = 0 then x # filter (\<lambda>y. c z y = 0) ys else filter (\<lambda>y. c z y = 0) ys)"
proof (induction ys)
  case Nil
  show ?case by simp
next
  case (Cons y ys)
  have flip: "\<And>a b. (c a b < 0) = (0 < c b a)"
    and tr: "\<And>a b d. c a b \<le> 0 \<Longrightarrow> c b d \<le> 0 \<Longrightarrow> c a d \<le> 0"
    using assms unfolding consistentCompare_def by blast+
  have both: "c x y \<le> 0" if "c z x = 0" "c z y = 0"
  proof -
    from that(1) flip[of x z] flip[of z x] have "c x z \<le> 0"
      by (metis less_irrefl not_le)
    with that(2) tr[of x z y] show ?thesis by simp
  qed
  show ?case
  proof (cases "c x y \<le> 0")
    case True
    then show ?thesis by simp
  next
    case False
    with both have "\<not> (c z x = 0 \<and> c z y = 0)" by blast
    with False Cons show ?thesis by auto
  qed
qed

lemma array_sort_stable:
  assumes "consistentCompare c"
  shows "filter (\<lambda>y. c z y = 0) (array_sort c xs) = filter (\<lambda>y. c z y = 0) xs"
proof (induction xs)
  case Nil
  show ?case by (simp add: array_sort_def)
next
  case (Cons x xs)
  have "array_sort c (x # xs) = insert_by c x (array_sort c xs)"
    by (simp add: array_sort_def)
  with Cons filter_insert_by[OF assms, of z x "array_sort c xs"] show ?case
    by simp
qed

lemma array_sort_desc_rev:
  assumes con: "consistentCompare c" and nt: "noTies c xs"
  shows "array_sort (\<lambda>a b. - c a b) xs = rev (array_sort c xs)"
proof -
  let ?lt = "\<lambda>a b. c a b < 0"
  from nt noTies_iff[OF con] have d: "distinct xs"
    and ne: "\<And>a b. a \<in> set xs \<Longrightarrow> b \<in> set xs \<Longrightarrow> a \<noteq> b \<Longrightarrow> c a b \<noteq> 0" by auto
  have asym: "\<And>a b. ?lt a b \<Longrightarrow> \<not> ?lt b a"
    using con unfolding consistentCompare_def by (metis less_asym)
  have flip: "\<And>a b. (c a b < 0) = (0 < c b a)"
    using con unfolding consistentCompare_def by blast
  have "sorted_wrt (\<lambda>a b. c a b \<le> 0 \<and> a \<noteq> b) (array_sort c xs)"
    by (rule sorted_strict) (simp_all add: distinct_array_sort d sorted_array_sort con)
  then have up: "sorted_wrt ?lt (array_sort c xs)"
    by (rule sorted_wrt_mono_rel[rotated]) (use ne in \<open>force simp: set_array_sort\<close>)
  have "sorted_wrt (\<lambda>a b. - c a b \<le> 0) (array_sort (\<lambda>a b. - c a b) xs)"
    by (rule sorted_array_sort[OF consistent_neg[OF con]])
  then have "sorted_wrt (\<lambda>a b. - c a b \<le> 0 \<and> a \<noteq> b) (array_sort (\<lambda>a b. - c a b) xs)"
    by (rule sorted_strict[rotated]) (simp add: distinct_array_sort d)
  then have "sorted_wrt (\<lambda>a b. ?lt b a) (array_sort (\<lambda>a b. - c a b) xs)"
    by (rule sorted_wrt_mono_rel[rotated]) (use ne flip in \<open>force simp: set_array_sort\<close>)
  then have down: "sorted_wrt ?lt (rev (array_sort (\<lambda>a b. - c a b) xs))"
    by (simp add: sorted_wrt_rev)
  have "rev (array_sort (\<lambda>a b. - c a b) xs) = array_sort c xs"
    by (rule strict_sorted_unique[of ?lt, OF asym down up]) (simp_all add: set_array_sort)
  then show ?thesis by (metis rev_rev_ident)
qed

lemma key_consistent: "consistentCompare (\<lambda>a b. (k a :: int) - k b)"
  unfolding consistentCompare_def by simp

lemma pullback_consistent:
  "consistentCompare lc \<Longrightarrow> consistentCompare (\<lambda>a b. lc (f a) (f b))"
  unfolding consistentCompare_def by blast

lemma compareValue_cases:
  "compareValue gt lc f = (\<lambda>a b. gt (created_at a) - gt (created_at b))
   \<or> compareValue gt lc f = (\<lambda>a b. gt (updated_at a) - gt (updated_at b))
   \<or> compareValue gt lc f = (\<lambda>a b. (comments a + review_comments a) - (comments b + review_comments b))
   \<or> compareValue gt lc f = (\<lambda>a b. lc (title a) (title b))
   \<or> compareValue gt lc f = (\<lambda>a b. (0::int) - 0)"
  by (simp add: compareValue_def fun_eq_iff)

lemma compareValue_consistent:
  assumes "consistentCompare lc"
  shows "consistentCompare (compareValue gt lc f)"
  using compareValue_cases[of gt lc f]
        key_consistent[of "\<lambda>a. gt (created_at a)"]
        key_consistent[of "\<lambda>a. gt (updated_at a)"]
        key_consistent[of "\<lambda>a. comments a + review_comments a"]
        key_consistent[of "\<lambda>a::PullRequest. 0"]
        pullback_consistent[OF assms, of title]
  by (elim disjE) simp_all

lemma codeUnitCompare_sign:
  "(codeUnitCompare a b < 0) = (a < b)"
  "(0 < codeUnitCompare a b) = (b < a)"
  "(codeUnitCompare a b \<le> 0) = (a \<le> b)"
  by (auto simp: codeUnitCompare_def)

lemma codeUnitCompare_consistent: "consistentCompare codeUnitCompare"
  unfolding consistentCompare_def codeUnitCompare_sign
  by (meson order_trans)

text \<open>
  Claim C8. Filtering is idempotent: filtering the result again with the same criteria
  changes nothing. With no criterion present the result is the input list. On the store,
  the array passed in holds the same elements after the call, and the array returned is a
  different object whose elements are the filtered list.
\<close>

theorem filterPullRequests_idempotent:
  "filterPullRequests toLowerCase (filterPullRequests toLowerCase prs c) c
     = filterPullRequests toLowerCase prs c
   \<and> filterPullRequests toLowerCase prs \<lparr> author = None, label = None, minComments = None \<rparr> = prs
   \<and> (r < length h \<longrightarrow>
        snd (filterPullRequests_store toLowerCase h r c) ! r = h ! r
      \<and> fst (filterPullRequests_store toLowerCase h r c) \<noteq> r
      \<and> snd (filterPullRequests_store toLowerCase h r c)
            ! fst (filterPullRequests_store toLowerCase h r c)
          = filterPullRequests toLowerCase (h ! r) c)"
  using filter_idem[of toLowerCase prs c] filter_none[of toLowerCase prs]
        filter_store[where prs = r and h = h and lower = toLowerCase and c = c]
  by blast

theorem filterPullRequests_idempotent_witness:
  "filterPullRequests asciiLower filterFixture
       \<lparr> author = Some ''Alice'', label = Some ''BUG'', minComments = Some 5 \<rparr>
     = [mockPR\<lparr> user := (user mockPR)\<lparr> login := ''alice'' \<rparr> \<rparr>]
   \<and> filterPullRequests asciiLower
       (filterPullRequests asciiLower filterFixture
          \<lparr> author = Some ''Alice'', label = Some ''BUG'', minComments = Some 5 \<rparr>)
       \<lparr> author = Some ''Alice'', label = Some ''BUG'', minComments = Some 5 \<rparr>
     = [mockPR\<lparr> user := (user mockPR)\<lparr> login := ''alice'' \<rparr> \<rparr>]
   \<and> (0::nat) < length [filterFixture]
   \<and> snd (filterPullRequests_store asciiLower [filterFixture] 0
            \<lparr> author = Some ''Alice'', label = Some ''BUG'', minComments = Some 5 \<rparr>) ! 0
     = filterFixture
   \<and> snd (filterPullRequests_store asciiLower [filterFixture] 0
            \<lparr> author = Some ''Alice'', label = Some ''BUG'', minComments = Some 5 \<rparr>)
        ! fst (filterPullRequests_store asciiLower [filterFixture] 0
                 \<lparr> author = Some ''Alice'', label = Some ''BUG'', minComments = Some 5 \<rparr>)
     = [mockPR\<lparr> user := (user mockPR)\<lparr> login := ''alice'' \<rparr> \<rparr>]"
proof -
  let ?c = "\<lparr> author = Some ''Alice'', label = Some ''BUG'', minComments = Some 5 \<rparr>"
  have v: "filterPullRequests asciiLower filterFixture ?c
             = [mockPR\<lparr> user := (user mockPR)\<lparr> login := ''alice'' \<rparr> \<rparr>]"
    by code_simp
  have n: "(0::nat) < length [filterFixture]" by simp
  from filterPullRequests_idempotent[of asciiLower filterFixture ?c 0 "[filterFixture]"] v n
  show ?thesis by simp
qed

text \<open>
  Claim C7, as stated: sorting in descending direction would give the reverse of sorting
  in ascending direction, for every list. Two pull requests with the same combined
  comment count keep their relative order in both directions, so the descending result is
  not the reversed ascending one.
\<close>

theorem sortPullRequests_reverse_counterexample:
  "sortPullRequests (\<lambda>s. 0) codeUnitCompare [mockPR\<lparr>number := 124\<rparr>, mockPR\<lparr>number := 125\<rparr>]
       \<lparr> sort_field = ''comments'', sort_direction = ''desc'' \<rparr>
     = [mockPR\<lparr>number := 124\<rparr>, mockPR\<lparr>number := 125\<rparr>]
   \<and> rev (sortPullRequests (\<lambda>s. 0) codeUnitCompare
             [mockPR\<lparr>number := 124\<rparr>, mockPR\<lparr>number := 125\<rparr>]
             \<lparr> sort_field = ''comments'', sort_direction = ''asc'' \<rparr>)
     = [mockPR\<lparr>number := 125\<rparr>, mockPR\<lparr>number := 124\<rparr>]
   \<and> sortPullRequests (\<lambda>s. 0) codeUnitCompare [mockPR\<lparr>number := 124\<rparr>, mockPR\<lparr>number := 125\<rparr>]
       \<lparr> sort_field = ''comments'', sort_direction = ''desc'' \<rparr>
     \<noteq> rev (sortPullRequests (\<lambda>s. 0) codeUnitCompare
             [mockPR\<lparr>number := 124\<rparr>, mockPR\<lparr>number := 125\<rparr>]
             \<lparr> sort_field = ''comments'', sort_direction = ''asc'' \<rparr>)"
  by (simp add: sortPullRequests_def array_sort_def comparePullRequests_def compareValue_def
                mockPR_def)

text \<open>
  Claim C7, amended. When no two items of the list compare equal under the sort field
  (and the platform's string collation is a consistent comparison), sorting in descending
  direction gives exactly the reverse of sorting in ascending direction. The descending
  comparison is the negated ascending one. On the store, the array passed in holds the
  same elements after the call, and the array returned is a different object whose
  elements are the sorted list.
\<close>

theorem sortPullRequests_desc_is_rev_asc:
  assumes "consistentCompare localeCompare"
      and "noTies (compareValue getTime localeCompare field) prs"
      and "r < length h"
  shows "sortPullRequests getTime localeCompare prs \<lparr> sort_field = field, sort_direction = ''desc'' \<rparr>
           = rev (sortPullRequests getTime localeCompare prs
                    \<lparr> sort_field = field, sort_direction = ''asc'' \<rparr>)
       \<and> comparePullRequests getTime localeCompare \<lparr> sort_field = field, sort_direction = ''desc'' \<rparr> a b
           = - comparePullRequests getTime localeCompare
                 \<lparr> sort_field = field, sort_direction = ''asc'' \<rparr> a b
       \<and> snd (sortPullRequests_store getTime localeCompare h r options) ! r = h ! r
       \<and> fst (sortPullRequests_store getTime localeCompare h r options) \<noteq> r
       \<and> snd (sortPullRequests_store getTime localeCompare h r options)
             ! fst (sortPullRequests_store getTime localeCompare h r options)
           = sortPullRequests getTime localeCompare (h ! r) options"
proof -
  let ?c = "compareValue getTime localeCompare field"
  have asc: "comparePullRequests getTime localeCompare \<lparr> sort_field = field, sort_direction = ''asc'' \<rparr> = ?c"
    by (intro ext) (simp add: comparePullRequests_def)
  have desc: "comparePullRequests getTime localeCompare \<lparr> sort_field = field, sort_direction = ''desc'' \<rparr>
                = (\<lambda>a b. - ?c a b)"
    by (intro ext) (simp add: comparePullRequests_def)
  have 1: "sortPullRequests getTime localeCompare prs \<lparr> sort_field = field, sort_direction = ''desc'' \<rparr>
           = rev (sortPullRequests getTime localeCompare prs
                    \<lparr> sort_field = field, sort_direction = ''asc'' \<rparr>)"
    unfolding sortPullRequests_def Let_def asc desc
    by (rule array_sort_desc_rev[OF compareValue_consistent[OF assms(1)] assms(2)])
  have 2: "comparePullRequests getTime localeCompare \<lparr> sort_field = field, sort_direction = ''desc'' \<rparr> a b
           = - comparePullRequests getTime localeCompare
                 \<lparr> sort_field = field, sort_direction = ''asc'' \<rparr> a b"
    by (simp add: asc desc)
  have 3: "snd (sortPullRequests_store getTime localeCompare h r options) ! r = h ! r
       \<and> fst (sortPullRequests_store getTime localeCompare h r options) \<noteq> r
       \<and> snd (sortPullRequests_store getTime localeCompare h r options)
             ! fst (sortPullRequests_store getTime localeCompare h r options)
           = sortPullRequests getTime localeCompare (h ! r) options"
    using assms(3)
    by (simp add: sortPullRequests_store_def sortPullRequests_def alloc_def Let_def nth_append)
  from 1 2 3 show ?thesis by blast
qed


theorem sortPullRequests_desc_is_rev_asc_witness:
  "consistentCompare codeUnitCompare
   \<and> noTies (compareValue (\<lambda>s. 0) codeUnitCompare ''title'') sortFixture
   \<and> (0::nat) < length [sortFixture]
   \<and> map title (sortPullRequests (\<lambda>s. 0) codeUnitCompare sortFixture
                   \<lparr> sort_field = ''title'', sort_direction = ''asc'' \<rparr>)
       = [''Alpha'', ''Beta'', ''Zebra'']
   \<and> sortPullRequests (\<lambda>s. 0) codeUnitCompare sortFixture
        \<lparr> sort_field = ''title'', sort_direction = ''desc'' \<rparr>
       = rev (sortPullRequests (\<lambda>s. 0) codeUnitCompare sortFixture
                \<lparr> sort_field = ''title'', sort_direction = ''asc'' \<rparr>)
   \<and> snd (sortPullRequests_store (\<lambda>s. 0) codeUnitCompare [sortFixture] 0
             \<lparr> sort_field = ''title'', sort_direction = ''asc'' \<rparr>) ! 0 = sortFixture"
proof -
  have c: "consistentCompare codeUnitCompare"
    by (rule codeUnitCompare_consistent)
  have t: "noTies (compareValue (\<lambda>s. 0) codeUnitCompare ''title'') sortFixture"
    by (simp add: compareValue_def codeUnitCompare_def sortFixture_def mockPR_def)
  have n: "(0::nat) < length [sortFixture]" by simp
  have v: "map title (sortPullRequests (\<lambda>s. 0) codeUnitCompare sortFixture
                   \<lparr> sort_field = ''title'', sort_direction = ''asc'' \<rparr>)
       = [''Alpha'', ''Beta'', ''Zebra'']"
    by (simp add: sortPullRequests_def array_sort_def comparePullRequests_def compareValue_def
                  codeUnitCompare_def sortFixture_def mockPR_def)
  from sortPullRequests_desc_is_rev_asc[OF c t n,
         where options = "\<lparr> sort_field = ''title'', sort_direction = ''asc'' \<rparr>"] c t n v
  show ?thesis by simp
qed

section \<open>Properties of the fetcher\<close>

subsection \<open>The page loop\<close>

lemma link_test:
  \<open>(case link response of None \<Rightarrow> False
     | Some linkHeader \<Rightarrow> if linkHeader \<noteq> [] then str_includes linkHeader ''rel="next"'' else False)
   = indicatesNext (Inr response)\<close>
  by (auto simp: indicatesNext_def split: option.splits)

lemma pageLoop_failure:
  "pageLoop list req mp all cp hn log = (Inl e, log') \<Longrightarrow>
     \<exists>new. log' = log @ new \<and> new \<noteq> [] \<and> list (last new) = Inl e
        \<and> (\<forall>q\<in>set (butlast new). \<exists>resp. list q = Inr resp)"
proof (induction list req mp all cp hn log rule: pageLoop.induct)
  case (1 list req maxPages allPRs currentPage hasNext log)
  let ?q = "req\<lparr> req_page := currentPage \<rparr>"
  from "1.prems" have run: "hasNext \<and> le_number currentPage maxPages"
    by (subst (asm) pageLoop.simps) (auto split: if_splits)
  show ?case
  proof (cases "list ?q")
    case (Inl err)
    with "1.prems" run have "log' = log @ [?q]" "err = e"
      by (subst (asm) pageLoop.simps; simp)+
    with Inl show ?thesis by simp
  next
    case (Inr response)
    with "1.prems" run have nz: "length (response_data response) \<noteq> 0"
      by (subst (asm) pageLoop.simps) (auto split: if_splits)
    with "1.prems" run Inr
    have "pageLoop list req maxPages (allPRs @ map mapToPullRequest (response_data response))
            (currentPage + 1) (indicatesNext (Inr response)) (log @ [?q]) = (Inl e, log')"
      by (subst (asm) pageLoop.simps) (simp add: link_test)
    from "1.IH"[OF run Inr nz this[unfolded link_test[symmetric]]]
    obtain new where n: "log' = (log @ [?q]) @ new" "new \<noteq> []" "list (last new) = Inl e"
        "\<forall>q\<in>set (butlast new). \<exists>resp. list q = Inr resp"
      by blast
    have "log' = log @ (?q # new)" using n by simp
    moreover have "list (last (?q # new)) = Inl e" using n by simp
    moreover have "\<forall>q\<in>set (butlast (?q # new)). \<exists>resp. list q = Inr resp"
      using n Inr by simp
    ultimately show ?thesis by blast
  qed
qed

lemma pageLoop_success:
  "pageLoop list req mp all cp hn log = (Inr (all', cp', hn'), log') \<Longrightarrow>
     \<exists>new. log' = log @ new
       \<and> (\<forall>q\<in>set new. \<exists>resp. list q = Inr resp)
       \<and> (\<forall>q\<in>set (butlast new). \<not> zeroItems (list q))
       \<and> (new \<noteq> [] \<longrightarrow> req_page (last new) = cp + int (length new) - 1)
       \<and> all' = all @ concat (map (\<lambda>q. itemsOf (list q)) new)
       \<and> ((new \<noteq> [] \<and> zeroItems (list (last new)) \<and> cp' = cp + int (length new) - 1
             \<and> \<not> hn' \<and> le_number cp' mp)
          \<or> ((new \<noteq> [] \<longrightarrow> \<not> zeroItems (list (last new))) \<and> cp' = cp + int (length new)
             \<and> hn' = (if new = [] then hn else indicatesNext (list (last new)))
             \<and> \<not> (hn' \<and> le_number cp' mp)))"
proof (induction list req mp all cp hn log rule: pageLoop.induct)
  case (1 list req maxPages allPRs currentPage hasNext log)
  let ?q = "req\<lparr> req_page := currentPage \<rparr>"
  show ?case
  proof (cases "hasNext \<and> le_number currentPage maxPages")
    case False
    with "1.prems" have "all' = allPRs" "cp' = currentPage" "hn' = hasNext" "log' = log"
      by (subst (asm) pageLoop.simps; simp)+
    with False show ?thesis
      by (intro exI[of _ "[]"]) simp
  next
    case run: True
    show ?thesis
    proof (cases "list ?q")
      case (Inl err)
      with "1.prems" run show ?thesis
        by (subst (asm) pageLoop.simps) simp
    next
      case (Inr response)
      show ?thesis
      proof (cases "length (response_data response) = 0")
        case True
        with "1.prems" run Inr
        have "all' = allPRs" "cp' = currentPage" "hn' = False" "log' = log @ [?q]"
          by (subst (asm) pageLoop.simps; simp)+
        with True run Inr show ?thesis
          by (intro exI[of _ "[?q]"]) (simp add: zeroItems_def itemsOf_def)
      next
        case nz: False
        with "1.prems" run Inr
        have "pageLoop list req maxPages (allPRs @ map mapToPullRequest (response_data response))
                (currentPage + 1) (indicatesNext (Inr response)) (log @ [?q])
              = (Inr (all', cp', hn'), log')"
          by (subst (asm) pageLoop.simps) (simp add: link_test)
        from "1.IH"[OF run Inr nz this[unfolded link_test[symmetric]]]
        obtain new where n: "log' = (log @ [?q]) @ new"
            "\<forall>q\<in>set new. \<exists>resp. list q = Inr resp"
            "\<forall>q\<in>set (butlast new). \<not> zeroItems (list q)"
            "new \<noteq> [] \<longrightarrow> req_page (last new) = (currentPage + 1) + int (length new) - 1"
            "all' = (allPRs @ map mapToPullRequest (response_data response))
                      @ concat (map (\<lambda>q. itemsOf (list q)) new)"
            "(new \<noteq> [] \<and> zeroItems (list (last new)) \<and> cp' = (currentPage + 1) + int (length new) - 1
                \<and> \<not> hn' \<and> le_number cp' maxPages)
             \<or> ((new \<noteq> [] \<longrightarrow> \<not> zeroItems (list (last new)))
                \<and> cp' = (currentPage + 1) + int (length new)
                \<and> hn' = (if new = [] then indicatesNext (Inr response)
                          else indicatesNext (list (last new)))
                \<and> \<not> (hn' \<and> le_number cp' maxPages))"
          unfolding link_test by blast
        have qnz: "\<not> zeroItems (list ?q)"
          using Inr nz by (simp add: zeroItems_def)
        have a: "log' = log @ (?q # new)" using n(1) by simp
        have b: "\<forall>q\<in>set (?q # new). \<exists>resp. list q = Inr resp"
          using n(2) Inr by simp
        have c: "\<forall>q\<in>set (butlast (?q # new)). \<not> zeroItems (list q)"
          using n(3) qnz by simp
        have d: "?q # new \<noteq> [] \<longrightarrow>
                   req_page (last (?q # new)) = currentPage + int (length (?q # new)) - 1"
          using n(4) by simp
        have e: "all' = allPRs @ concat (map (\<lambda>q. itemsOf (list q)) (?q # new))"
          using n(5) Inr by (simp add: itemsOf_def)
        have f: "(?q # new \<noteq> [] \<and> zeroItems (list (last (?q # new)))
                    \<and> cp' = currentPage + int (length (?q # new)) - 1 \<and> \<not> hn' \<and> le_number cp' maxPages)
                 \<or> ((?q # new \<noteq> [] \<longrightarrow> \<not> zeroItems (list (last (?q # new))))
                    \<and> cp' = currentPage + int (length (?q # new))
                    \<and> hn' = (if ?q # new = [] then hasNext
                              else indicatesNext (list (last (?q # new))))
                    \<and> \<not> (hn' \<and> le_number cp' maxPages))"
          using n(6) qnz Inr by (cases "new = []") auto
        from a b c d e f show ?thesis by blast
      qed
    qed
  qed
qed

subsection \<open>The cache lookup and the three ways a fetch ends\<close>

lemma fetch_hit:
  assumes "fst (CacheService_get cache now (cacheKeyOf options)) = Some hit"
  shows "fetchPullRequests list cache now later options
           = (Inr hit, snd (CacheService_get cache now (cacheKeyOf options)), [])"
  using assms
  by (simp add: fetchPullRequests_def Let_def case_prod_beta)

lemma fetch_miss_ok:
  assumes "fst (CacheService_get cache now (cacheKeyOf options)) = None"
      and "pageLoop list (firstRequest options)
             (case maxPages_opt options of None \<Rightarrow> Number 5 | Some x \<Rightarrow> x) [] 1 True []
           = (Inr (allPRs, currentPage, hasNext), log)"
  shows "fetchPullRequests list cache now later options
           = (Inr \<lparr> result_prs = allPRs,
                     pagination =
                       \<lparr> page = currentPage - 1,
                         perPage = (case perPage_opt options of None \<Rightarrow> 30 | Some x \<Rightarrow> x),
                         hasNextPage = hasNext,
                         totalFetched = int (length allPRs) \<rparr> \<rparr>,
              CacheService_set (snd (CacheService_get cache now (cacheKeyOf options))) later
                (cacheKeyOf options)
                \<lparr> result_prs = allPRs,
                  pagination =
                    \<lparr> page = currentPage - 1,
                      perPage = (case perPage_opt options of None \<Rightarrow> 30 | Some x \<Rightarrow> x),
                      hasNextPage = hasNext,
                      totalFetched = int (length allPRs) \<rparr> \<rparr> None,
              log)"
  using assms unfolding firstRequest_def
  by (simp add: fetchPullRequests_def Let_def case_prod_beta)

lemma fetch_miss_error:
  assumes "fst (CacheService_get cache now (cacheKeyOf options)) = None"
      and "pageLoop list (firstRequest options)
             (case maxPages_opt options of None \<Rightarrow> Number 5 | Some x \<Rightarrow> x) [] 1 True []
           = (Inl e, log)"
  shows "fetchPullRequests list cache now later options
           = (Inl (fetchErrorMessage (owner options) (repo options) e),
              snd (CacheService_get cache now (cacheKeyOf options)), log)"
  using assms unfolding firstRequest_def
  by (simp add: fetchPullRequests_def Let_def case_prod_beta)

lemma get_miss_cache:
  assumes "fst (CacheService_get cache now k) = None"
  shows "snd (CacheService_get cache now k) k = None"
    and "k' \<noteq> k \<Longrightarrow> snd (CacheService_get cache now k) k' = cache k'"
    and "cache k = None \<Longrightarrow> snd (CacheService_get cache now k) = cache"
  using assms
  by (auto simp: CacheService_get_def Let_def split: option.splits if_splits)

lemma get_after_miss:
  assumes "fst (CacheService_get cache now k) = None" and "now \<le> t"
  shows "fst (CacheService_get (snd (CacheService_get cache now k)) t k')
           = fst (CacheService_get cache t k')"
  using assms
  by (auto simp: CacheService_get_def Let_def split: option.splits if_splits)

lemma get_other: "k' \<noteq> k \<Longrightarrow> snd (CacheService_get cache now k) k' = cache k'"
  by (auto simp: CacheService_get_def Let_def split: option.splits if_splits)

lemma last_or_butlast: "q \<in> set new \<Longrightarrow> q \<notin> set (butlast new) \<Longrightarrow> q = last new"
  by (cases new rule: rev_cases) auto

lemma fetch_cases:
  fixes list :: upstream and cache :: "FetchResult cache" and now later :: int
    and options :: FetchPRsOptions
  defines "run \<equiv> fetchPullRequests list cache now later options"
  defines "mp \<equiv> (case maxPages_opt options of None \<Rightarrow> Number 5 | Some x \<Rightarrow> x)"
  obtains (hit) hit where "fst (CacheService_get cache now (cacheKeyOf options)) = Some hit"
      "run = (Inr hit, snd (CacheService_get cache now (cacheKeyOf options)), [])"
  | (error) e log where "fst (CacheService_get cache now (cacheKeyOf options)) = None"
      "pageLoop list (firstRequest options) mp [] 1 True [] = (Inl e, log)"
      "run = (Inl (fetchErrorMessage (owner options) (repo options) e),
              snd (CacheService_get cache now (cacheKeyOf options)), log)"
  | (ok) allPRs currentPage hasNext log where
      "fst (CacheService_get cache now (cacheKeyOf options)) = None"
      "pageLoop list (firstRequest options) mp [] 1 True [] = (Inr (allPRs, currentPage, hasNext), log)"
      "run = (Inr \<lparr> result_prs = allPRs,
                     pagination =
                       \<lparr> page = currentPage - 1,
                         perPage = (case perPage_opt options of None \<Rightarrow> 30 | Some x \<Rightarrow> x),
                         hasNextPage = hasNext,
                         totalFetched = int (length allPRs) \<rparr> \<rparr>,
              CacheService_set (snd (CacheService_get cache now (cacheKeyOf options))) later
                (cacheKeyOf options)
                \<lparr> result_prs = allPRs,
                  pagination =
                    \<lparr> page = currentPage - 1,
                      perPage = (case perPage_opt options of None \<Rightarrow> 30 | Some x \<Rightarrow> x),
                      hasNextPage = hasNext,
                      totalFetched = int (length allPRs) \<rparr> \<rparr> None,
              log)"
proof (cases "fst (CacheService_get cache now (cacheKeyOf options))")
  case (Some h)
  from fetch_hit[OF this] Some hit show ?thesis unfolding run_def by blast
next
  case None
  obtain r log where pl: "pageLoop list (firstRequest options) mp [] 1 True [] = (r, log)"
    by (cases "pageLoop list (firstRequest options) mp [] 1 True []") auto
  show ?thesis
  proof (cases r)
    case (Inl e)
    with pl fetch_miss_error[OF None, of list e log later] error None show ?thesis
      unfolding run_def mp_def by blast
  next
    case (Inr s)
    obtain a c h where "s = (a, c, h)" by (cases s) auto
    with Inr pl fetch_miss_ok[OF None, of list a c h log later] ok None show ?thesis
      unfolding run_def mp_def by blast
  qed
qed

lemma fetchErrorMessage_kinds:
  "(status e = Some 404 \<longrightarrow>
      fetchErrorMessage ow rp e = ''Repository '' @ ow @ ''/'' @ rp @ '' not found or you don't have access'')
   \<and> (status e = Some 401 \<longrightarrow>
      fetchErrorMessage ow rp e = ''Authentication failed. Please check your GitHub token'')
   \<and> (status e = Some 403 \<and> str_includes (message e) ''rate limit'' \<longrightarrow>
      fetchErrorMessage ow rp e = ''GitHub API rate limit exceeded. Please try again later'')
   \<and> (status e = Some 403 \<and> \<not> str_includes (message e) ''rate limit'' \<longrightarrow>
      fetchErrorMessage ow rp e = ''Access forbidden. Please check your token permissions'')
   \<and> (status e \<noteq> Some 404 \<and> status e \<noteq> Some 401 \<and> status e \<noteq> Some 403 \<longrightarrow>
      fetchErrorMessage ow rp e = ''Failed to fetch pull requests: '' @ message e)"
  by (simp add: fetchErrorMessage_def split: option.splits)

lemma filter_all_but_last:
  assumes "\<forall>q\<in>set (butlast new). P q" "new \<noteq> []" "\<not> P (last new)"
  shows "filter P new = butlast new"
  using assms by (cases new rule: rev_cases) auto

lemma filter_all:
  assumes "\<forall>q\<in>set (butlast new). P q" "new \<noteq> [] \<longrightarrow> P (last new)"
  shows "filter P new = new"
  using assms by (cases new rule: rev_cases) auto

lemma fetch_success_shape:
  fixes list :: upstream and cache :: "FetchResult cache" and now later :: int
    and options :: FetchPRsOptions
  defines "run \<equiv> fetchPullRequests list cache now later options"
  defines "mp \<equiv> (case maxPages_opt options of None \<Rightarrow> Number 5 | Some x \<Rightarrow> x)"
  assumes miss: "fst (CacheService_get cache now (cacheKeyOf options)) = None"
      and ok: "fst run = Inr result"
  obtains currentPage where
      "page (pagination result) = currentPage - 1"
      "totalFetched (pagination result) = int (length (result_prs result))"
      "\<forall>q\<in>set (snd (snd run)). \<exists>resp. list q = Inr resp"
      "\<forall>q\<in>set (butlast (snd (snd run))). \<not> zeroItems (list q)"
      "snd (snd run) \<noteq> [] \<longrightarrow>
         req_page (last (snd (snd run))) = int (length (snd (snd run)))"
      "result_prs result = concat (map (\<lambda>q. itemsOf (list q)) (snd (snd run)))"
      "(snd (snd run) \<noteq> [] \<and> zeroItems (list (last (snd (snd run))))
          \<and> currentPage = int (length (snd (snd run)))
          \<and> \<not> hasNextPage (pagination result) \<and> le_number currentPage mp)
       \<or> ((snd (snd run) \<noteq> [] \<longrightarrow> \<not> zeroItems (list (last (snd (snd run)))))
          \<and> currentPage = 1 + int (length (snd (snd run)))
          \<and> hasNextPage (pagination result)
               = (if snd (snd run) = [] then True else indicatesNext (list (last (snd (snd run)))))
          \<and> \<not> (hasNextPage (pagination result) \<and> le_number currentPage mp))"
proof (cases rule: fetch_cases[of cache now options list later])
  case (hit h)
  with miss show ?thesis by simp
next
  case (error e log)
  with ok show ?thesis unfolding run_def by simp
next
  case (ok allPRs currentPage hasNext log)
  from ok(3) \<open>fst run = Inr result\<close>
  have r: "result = \<lparr> result_prs = allPRs,
                     pagination =
                       \<lparr> page = currentPage - 1,
                         perPage = (case perPage_opt options of None \<Rightarrow> 30 | Some x \<Rightarrow> x),
                         hasNextPage = hasNext,
                         totalFetched = int (length allPRs) \<rparr> \<rparr>"
    and l: "snd (snd run) = log"
    unfolding run_def by simp_all
  from pageLoop_success[OF ok(2)[folded mp_def]] r l that[of currentPage]
  show ?thesis unfolding mp_def by auto
qed

subsection \<open>A failed page request\<close>

text \<open>
  Claim C1. If a page request issued by \<open>fetchPullRequests\<close> fails, it is the last
  request issued, and the call ends with the error classified from what was thrown:
  status 404 gives the not-found/no-access message, 401 the authentication failure, 403
  with a rate-limit indication (the words \<open>rate limit\<close> in the error's message, which is
  what the catch block looks for) the rate-limit message, any other 403 the forbidden
  message, and everything else the generic message wrapping the underlying one. The
  outcome is an error and carries no list of items. The failing path writes nothing to the
  cache: the cache after the call is the cache as the lookup at the start of the call
  returned it to the \<open>try\<close> block, there is no entry under the computed key, every other
  key is as before the call, and \<open>get\<close> of any key at any time from then on returns
  what it would have returned on the cache before the call. (The lookup itself, like
  every \<open>get\<close>, removes an entry it finds expired; when there is no entry under the key
  before the call, the cache after the call is the cache before it.)
\<close>

theorem fetch_failure_aborts:
  fixes list :: upstream and cache :: "FetchResult cache" and now later :: int
    and options :: FetchPRsOptions
  defines "run \<equiv> fetchPullRequests list cache now later options"
  assumes q: "q \<in> set (snd (snd run))" and e: "list q = Inl e"
  shows "fst run = Inl (fetchErrorMessage (owner options) (repo options) e)
       \<and> q = last (snd (snd run))
       \<and> fst (snd run) = snd (CacheService_get cache now (cacheKeyOf options))
       \<and> fst (snd run) (cacheKeyOf options) = None
       \<and> (\<forall>k. k \<noteq> cacheKeyOf options \<longrightarrow> fst (snd run) k = cache k)
       \<and> (cache (cacheKeyOf options) = None \<longrightarrow> fst (snd run) = cache)
       \<and> (\<forall>k t. now \<le> t \<longrightarrow>
              fst (CacheService_get (fst (snd run)) t k) = fst (CacheService_get cache t k))
       \<and> (status e = Some 404 \<longrightarrow>
            fst run = Inl (''Repository '' @ owner options @ ''/'' @ repo options
                             @ '' not found or you don't have access''))
       \<and> (status e = Some 401 \<longrightarrow>
            fst run = Inl ''Authentication failed. Please check your GitHub token'')
       \<and> (status e = Some 403 \<and> str_includes (message e) ''rate limit'' \<longrightarrow>
            fst run = Inl ''GitHub API rate limit exceeded. Please try again later'')
       \<and> (status e = Some 403 \<and> \<not> str_includes (message e) ''rate limit'' \<longrightarrow>
            fst run = Inl ''Access forbidden. Please check your token permissions'')
       \<and> (status e \<noteq> Some 404 \<and> status e \<noteq> Some 401 \<and> status e \<noteq> Some 403 \<longrightarrow>
            fst run = Inl (''Failed to fetch pull requests: '' @ message e))"
proof (cases rule: fetch_cases[of cache now options list later])
  case (hit h)
  with q show ?thesis unfolding run_def by simp
next
  case (ok allPRs currentPage hasNext log)
  from pageLoop_success[OF ok(2)] have "\<forall>q\<in>set log. \<exists>resp. list q = Inr resp"
    by auto
  with q e ok(3) show ?thesis unfolding run_def by auto
next
  case (error e' log)
  from pageLoop_failure[OF error(2)]
  have l: "log \<noteq> []" "list (last log) = Inl e'"
      "\<forall>q\<in>set (butlast log). \<exists>resp. list q = Inr resp"
    by auto
  from q error(3) have qin: "q \<in> set log" unfolding run_def by simp
  with l(3) e have "q \<notin> set (butlast log)" by auto
  with qin have ql: "q = last log" by (rule last_or_butlast)
  with l(2) e have ee: "e' = e" by simp
  have 1: "fst run = Inl (fetchErrorMessage (owner options) (repo options) e)"
    using error(3) ee unfolding run_def by simp
  have 2: "q = last (snd (snd run))"
    using error(3) ql unfolding run_def by simp
  have 3: "fst (snd run) = snd (CacheService_get cache now (cacheKeyOf options))"
    using error(3) unfolding run_def by simp
  note g = get_miss_cache[OF error(1)]
  have 4: "\<forall>k t. now \<le> t \<longrightarrow>
              fst (CacheService_get (fst (snd run)) t k) = fst (CacheService_get cache t k)"
    unfolding 3 using get_after_miss[OF error(1)] by blast
  from 1 2 3 4 g fetchErrorMessage_kinds[of e "owner options" "repo options"]
  show ?thesis by simp
qed

theorem fetch_failure_aborts_witness:
  "(firstRequest plainOptions)\<lparr> req_page := 2 \<rparr> \<in> set (snd (snd (fetchPullRequests rateLimitedRepo Map.empty 0 1 plainOptions)))
   \<and> rateLimitedRepo ((firstRequest plainOptions)\<lparr> req_page := 2 \<rparr>) = Inl \<lparr> status = Some 403, message = ''API rate limit exceeded for user ID 1.'' \<rparr>
   \<and> fst (fetchPullRequests rateLimitedRepo Map.empty 0 1 plainOptions) = Inl ''GitHub API rate limit exceeded. Please try again later''
   \<and> (firstRequest plainOptions)\<lparr> req_page := 2 \<rparr> = last (snd (snd (fetchPullRequests rateLimitedRepo Map.empty 0 1 plainOptions)))
   \<and> fst (snd (fetchPullRequests rateLimitedRepo Map.empty 0 1 plainOptions)) = Map.empty
   \<and> firstRequest plainOptions \<in> set (snd (snd (fetchPullRequests missingRepo Map.empty 0 1 plainOptions)))
   \<and> missingRepo (firstRequest plainOptions) = Inl \<lparr> status = Some 404, message = ''Not Found'' \<rparr>
   \<and> fst (fetchPullRequests missingRepo Map.empty 0 1 plainOptions) = Inl ''Repository o/r not found or you don't have access''
   \<and> fst (snd (fetchPullRequests missingRepo Map.empty 0 1 plainOptions)) = Map.empty"
proof -
  have l: "snd (snd (fetchPullRequests rateLimitedRepo Map.empty 0 1 plainOptions)) = [firstRequest plainOptions, (firstRequest plainOptions)\<lparr> req_page := 2 \<rparr>]"
    by code_simp
  then have q: "(firstRequest plainOptions)\<lparr> req_page := 2 \<rparr> \<in> set (snd (snd (fetchPullRequests rateLimitedRepo Map.empty 0 1 plainOptions)))"
    by simp
  have e: "rateLimitedRepo ((firstRequest plainOptions)\<lparr> req_page := 2 \<rparr>) = Inl \<lparr> status = Some 403, message = ''API rate limit exceeded for user ID 1.'' \<rparr>"
    by (simp add: rateLimitedRepo_def)
  have i: "status \<lparr> status = Some 403, message = ''API rate limit exceeded for user ID 1.'' \<rparr> = Some 403 \<and> str_includes (message \<lparr> status = Some 403, message = ''API rate limit exceeded for user ID 1.'' \<rparr>) ''rate limit''"
    by code_simp
  have k: "(Map.empty :: FetchResult cache) (cacheKeyOf plainOptions) = None"
    by simp
  note t = fetch_failure_aborts[OF q e]
  from t i have m: "fst (fetchPullRequests rateLimitedRepo Map.empty 0 1 plainOptions) = Inl ''GitHub API rate limit exceeded. Please try again later''"
    by blast
  from t have a: "(firstRequest plainOptions)\<lparr> req_page := 2 \<rparr> = last (snd (snd (fetchPullRequests rateLimitedRepo Map.empty 0 1 plainOptions)))"
    by blast
  from t k have c: "fst (snd (fetchPullRequests rateLimitedRepo Map.empty 0 1 plainOptions)) = Map.empty"
    by blast
  have l': "snd (snd (fetchPullRequests missingRepo Map.empty 0 1 plainOptions)) = [firstRequest plainOptions]"
    by code_simp
  then have q': "firstRequest plainOptions \<in> set (snd (snd (fetchPullRequests missingRepo Map.empty 0 1 plainOptions)))"
    by simp
  have e': "missingRepo (firstRequest plainOptions) = Inl \<lparr> status = Some 404, message = ''Not Found'' \<rparr>"
    by (simp add: missingRepo_def)
  have i': "status \<lparr> status = Some 404, message = ''Not Found'' \<rparr> = Some 404"
    by simp
  have o: "owner plainOptions = ''o''" "repo plainOptions = ''r''"
    by (simp_all add: plainOptions_def)
  note t' = fetch_failure_aborts[OF q' e']
  from t' i' have "fst (fetchPullRequests missingRepo Map.empty 0 1 plainOptions) = Inl (''Repository '' @ owner plainOptions @ ''/'' @ repo plainOptions
                             @ '' not found or you don't have access'')"
    by blast
  then have m': "fst (fetchPullRequests missingRepo Map.empty 0 1 plainOptions) = Inl ''Repository o/r not found or you don't have access''"
    unfolding o by simp
  from t' k have c': "fst (snd (fetchPullRequests missingRepo Map.empty 0 1 plainOptions)) = Map.empty"
    by blast
  from q e m a c q' e' m' c' show ?thesis
    by blast
qed

subsection \<open>The pagination summary\<close>

text \<open>
  Claim C2, as stated: \<open>hasNextPage\<close> would be true only when the page counter exceeded
  \<open>maxPages\<close> and the last response of the remote API announced a further page. With
  \<open>maxPages = 0\<close> the loop body never runs: no request is issued, so there is no last
  response (and this repository would announce no further page on any request), yet the
  summary has \<open>hasNextPage = true\<close>, the value the variable is initialised with. The same
  happens with \<open>maxPages = NaN\<close>, which the page counter does not exceed either.
\<close>

theorem fetch_hasNextPage_counterexample:
  "fst (fetchPullRequests emptyRepo Map.empty 0 1 noPagesOptions) = Inr \<lparr> result_prs = [], pagination = \<lparr> page = 0, perPage = 30, hasNextPage = True, totalFetched = 0 \<rparr> \<rparr>
   \<and> hasNextPage (pagination \<lparr> result_prs = [], pagination = \<lparr> page = 0, perPage = 30, hasNextPage = True, totalFetched = 0 \<rparr> \<rparr>)
   \<and> snd (snd (fetchPullRequests emptyRepo Map.empty 0 1 noPagesOptions)) = []
   \<and> \<not> indicatesNext (emptyRepo (firstRequest noPagesOptions))
   \<and> fst (fetchPullRequests emptyRepo Map.empty 0 1 nanOptions) = Inr \<lparr> result_prs = [], pagination = \<lparr> page = 0, perPage = 30, hasNextPage = True, totalFetched = 0 \<rparr> \<rparr>
   \<and> snd (snd (fetchPullRequests emptyRepo Map.empty 0 1 nanOptions)) = []
   \<and> \<not> indicatesNext (emptyRepo (firstRequest nanOptions))"
proof -
  have a: "fst (fetchPullRequests emptyRepo Map.empty 0 1 noPagesOptions) = Inr \<lparr> result_prs = [], pagination = \<lparr> page = 0, perPage = 30, hasNextPage = True, totalFetched = 0 \<rparr> \<rparr>"
    by code_simp
  have b: "snd (snd (fetchPullRequests emptyRepo Map.empty 0 1 noPagesOptions)) = []"
    by code_simp
  have c: "\<not> indicatesNext (emptyRepo q)" for q
    by (simp add: indicatesNext_def emptyRepo_def)
  have d: "fst (fetchPullRequests emptyRepo Map.empty 0 1 nanOptions) = Inr \<lparr> result_prs = [], pagination = \<lparr> page = 0, perPage = 30, hasNextPage = True, totalFetched = 0 \<rparr> \<rparr>"
    by code_simp
  have e: "snd (snd (fetchPullRequests emptyRepo Map.empty 0 1 nanOptions)) = []"
    by code_simp
  from a b c d e show ?thesis by simp
qed

text \<open>
  Claim C2, amended. For every successful fetch that was not served from the cache,
  \<open>hasNextPage\<close> is true if and only if the loop was left because its test
  \<open>currentPage <= maxPages\<close> failed for the page counter (the reported page plus one),
  that is, the counter exceeded \<open>maxPages\<close> or \<open>maxPages\<close> is \<open>NaN\<close>, while either no page
  had been requested at all or the last response announced a further page. When a page
  returns zero items, \<open>hasNextPage\<close> is false, whatever \<open>maxPages\<close> is.
\<close>

theorem fetch_hasNextPage:
  fixes list :: upstream and cache :: "FetchResult cache" and now later :: int
    and options :: FetchPRsOptions
  defines "run \<equiv> fetchPullRequests list cache now later options"
  defines "maxPages \<equiv> (case maxPages_opt options of None \<Rightarrow> Number 5 | Some x \<Rightarrow> x)"
  assumes miss: "fst (CacheService_get cache now (cacheKeyOf options)) = None"
      and ok: "fst run = Inr result"
  shows "hasNextPage (pagination result)
           = (\<not> le_number (page (pagination result) + 1) maxPages
              \<and> (snd (snd run) = [] \<or> indicatesNext (list (last (snd (snd run))))))
       \<and> (\<forall>q\<in>set (snd (snd run)). zeroItems (list q) \<longrightarrow> \<not> hasNextPage (pagination result))
       \<and> (\<not> le_number (page (pagination result) + 1) maxPages
            = (maxPages = NaN \<or> (\<exists>m. maxPages = Number m \<and> m < page (pagination result) + 1)))"
proof (cases rule: fetch_success_shape[OF miss ok[unfolded run_def]])
  case (1 currentPage)
  note s = 1[folded run_def maxPages_def]
  from s(1) have cp: "page (pagination result) + 1 = currentPage"
    by simp
  have a: "hasNextPage (pagination result)
           = (\<not> le_number (page (pagination result) + 1) maxPages
              \<and> (snd (snd run) = [] \<or> indicatesNext (list (last (snd (snd run))))))"
    unfolding cp using s(7) by (auto split: if_splits)
  have b: "\<not> hasNextPage (pagination result)" if "q \<in> set (snd (snd run))" "zeroItems (list q)" for q
  proof -
    from that s(4) have "q \<notin> set (butlast (snd (snd run)))" by auto
    with that(1) have "q = last (snd (snd run))" by (rule last_or_butlast)
    with that s(7) show ?thesis by auto
  qed
  have c: "(\<not> le_number i maxPages) = (maxPages = NaN \<or> (\<exists>m. maxPages = Number m \<and> m < i))" for i
    by (cases maxPages) auto
  from a b c show ?thesis by blast
qed

theorem fetch_hasNextPage_witness:
  "fst (CacheService_get (Map.empty :: FetchResult cache) 0 (cacheKeyOf cappedOptions)) = None
   \<and> fst (fetchPullRequests endlessRepo Map.empty 0 1 cappedOptions) = Inr \<lparr> result_prs = [mockPR\<lparr> number := 1 \<rparr>, mockPR\<lparr> number := 2 \<rparr>],
           pagination = \<lparr> page = 2, perPage = 30, hasNextPage = True, totalFetched = 2 \<rparr> \<rparr>
   \<and> hasNextPage (pagination \<lparr> result_prs = [mockPR\<lparr> number := 1 \<rparr>, mockPR\<lparr> number := 2 \<rparr>],
           pagination = \<lparr> page = 2, perPage = 30, hasNextPage = True, totalFetched = 2 \<rparr> \<rparr>)
   \<and> \<not> le_number (page (pagination \<lparr> result_prs = [mockPR\<lparr> number := 1 \<rparr>, mockPR\<lparr> number := 2 \<rparr>],
           pagination = \<lparr> page = 2, perPage = 30, hasNextPage = True, totalFetched = 2 \<rparr> \<rparr>) + 1) (Number 2)
   \<and> indicatesNext (endlessRepo (last (snd (snd (fetchPullRequests endlessRepo Map.empty 0 1 cappedOptions)))))
   \<and> fst (CacheService_get (Map.empty :: FetchResult cache) 0 (cacheKeyOf plainOptions)) = None
   \<and> fst (fetchPullRequests emptyRepo Map.empty 0 1 plainOptions) = Inr emptyResult
   \<and> firstRequest plainOptions \<in> set (snd (snd (fetchPullRequests emptyRepo Map.empty 0 1 plainOptions)))
   \<and> zeroItems (emptyRepo (firstRequest plainOptions))
   \<and> \<not> hasNextPage (pagination emptyResult)
   \<and> fst (CacheService_get (Map.empty :: FetchResult cache) 0 (cacheKeyOf nanOptions)) = None
   \<and> fst (fetchPullRequests emptyRepo Map.empty 0 1 nanOptions) = Inr \<lparr> result_prs = [], pagination = \<lparr> page = 0, perPage = 30, hasNextPage = True, totalFetched = 0 \<rparr> \<rparr>
   \<and> hasNextPage (pagination \<lparr> result_prs = [], pagination = \<lparr> page = 0, perPage = 30, hasNextPage = True, totalFetched = 0 \<rparr> \<rparr>)
   \<and> \<not> le_number (page (pagination \<lparr> result_prs = [], pagination = \<lparr> page = 0, perPage = 30, hasNextPage = True, totalFetched = 0 \<rparr> \<rparr>) + 1) NaN
   \<and> snd (snd (fetchPullRequests emptyRepo Map.empty 0 1 nanOptions)) = []"
proof -
  have m: "fst (CacheService_get (Map.empty :: FetchResult cache) 0 k) = None" for k
    by (simp add: CacheService_get_def)
  have ok: "fst (fetchPullRequests endlessRepo Map.empty 0 1 cappedOptions) = Inr \<lparr> result_prs = [mockPR\<lparr> number := 1 \<rparr>, mockPR\<lparr> number := 2 \<rparr>],
           pagination = \<lparr> page = 2, perPage = 30, hasNextPage = True, totalFetched = 2 \<rparr> \<rparr>"
    by code_simp
  have l: "snd (snd (fetchPullRequests endlessRepo Map.empty 0 1 cappedOptions)) \<noteq> []"
    by code_simp
  have mp: "(case maxPages_opt cappedOptions of None \<Rightarrow> Number 5 | Some x \<Rightarrow> x) = Number 2"
    by code_simp
  have h: "hasNextPage (pagination \<lparr> result_prs = [mockPR\<lparr> number := 1 \<rparr>, mockPR\<lparr> number := 2 \<rparr>],
           pagination = \<lparr> page = 2, perPage = 30, hasNextPage = True, totalFetched = 2 \<rparr> \<rparr>)"
    by simp
  note t = fetch_hasNextPage[OF m ok, unfolded mp]
  from t h have c: "\<not> le_number (page (pagination \<lparr> result_prs = [mockPR\<lparr> number := 1 \<rparr>, mockPR\<lparr> number := 2 \<rparr>],
           pagination = \<lparr> page = 2, perPage = 30, hasNextPage = True, totalFetched = 2 \<rparr> \<rparr>) + 1) (Number 2)"
    by blast
  from t h l have n: "indicatesNext (endlessRepo (last (snd (snd (fetchPullRequests endlessRepo Map.empty 0 1 cappedOptions)))))"
    by blast
  have ok': "fst (fetchPullRequests emptyRepo Map.empty 0 1 plainOptions) = Inr emptyResult"
    by code_simp
  have q: "firstRequest plainOptions \<in> set (snd (snd (fetchPullRequests emptyRepo Map.empty 0 1 plainOptions)))"
    by code_simp
  have z: "zeroItems (emptyRepo (firstRequest plainOptions))"
    by (simp add: zeroItems_def emptyRepo_def)
  from fetch_hasNextPage[OF m ok'] q z have f: "\<not> hasNextPage (pagination emptyResult)"
    by blast
  have ok'': "fst (fetchPullRequests emptyRepo Map.empty 0 1 nanOptions) = Inr \<lparr> result_prs = [], pagination = \<lparr> page = 0, perPage = 30, hasNextPage = True, totalFetched = 0 \<rparr> \<rparr>"
    by code_simp
  have l'': "snd (snd (fetchPullRequests emptyRepo Map.empty 0 1 nanOptions)) = []"
    by code_simp
  have mp'': "(case maxPages_opt nanOptions of None \<Rightarrow> Number 5 | Some x \<Rightarrow> x) = NaN"
    by code_simp
  have h'': "hasNextPage (pagination \<lparr> result_prs = [], pagination = \<lparr> page = 0, perPage = 30, hasNextPage = True, totalFetched = 0 \<rparr> \<rparr>)"
    by simp
  note t'' = fetch_hasNextPage[OF m ok'', unfolded mp'']
  from t'' h'' have c'': "\<not> le_number (page (pagination \<lparr> result_prs = [], pagination = \<lparr> page = 0, perPage = 30, hasNextPage = True, totalFetched = 0 \<rparr> \<rparr>) + 1) NaN"
    by blast
  from m[of "cacheKeyOf cappedOptions"] m[of "cacheKeyOf plainOptions"] m[of "cacheKeyOf nanOptions"]
       ok h c n ok' q z f ok'' h'' c'' l''
  show ?thesis by blast
qed

text \<open>
  Claim C3, as stated: the reported page would be the number of the last page requested,
  also when the first page comes back empty. For a repository without pull requests the
  one request issued is for page 1, and the summary reports page 0.
\<close>

theorem fetch_page_counterexample:
  "fst (fetchPullRequests emptyRepo Map.empty 0 1 plainOptions) = Inr emptyResult
   \<and> page (pagination emptyResult) = 0
   \<and> snd (snd (fetchPullRequests emptyRepo Map.empty 0 1 plainOptions)) = [firstRequest plainOptions]
   \<and> req_page (last (snd (snd (fetchPullRequests emptyRepo Map.empty 0 1 plainOptions)))) = 1
   \<and> page (pagination emptyResult) \<noteq> req_page (last (snd (snd (fetchPullRequests emptyRepo Map.empty 0 1 plainOptions))))"
proof -
  have a: "fst (fetchPullRequests emptyRepo Map.empty 0 1 plainOptions) = Inr emptyResult"
    by code_simp
  have b: "snd (snd (fetchPullRequests emptyRepo Map.empty 0 1 plainOptions)) = [firstRequest plainOptions]"
    by code_simp
  have c: "req_page (firstRequest plainOptions) = 1"
    by (simp add: firstRequest_def)
  have d: "page (pagination emptyResult) = 0"
    by (simp add: emptyResult_def)
  from a b c d show ?thesis by simp
qed

text \<open>
  Claim C3, amended. For every successful fetch that was not served from the cache,
  \<open>totalFetched\<close> is the number of accumulated items, which are the items of the
  requested pages in order, and \<open>page\<close> is the number of the last requested page that
  returned at least one item, which is also how many requested pages did: it is the
  number of the last page requested, unless that page returned zero items, where it is
  the page before (0 when the very first page returned zero items), and it is 0 when no
  page was requested.
\<close>

theorem fetch_page_totalFetched:
  fixes list :: upstream and cache :: "FetchResult cache" and now later :: int
    and options :: FetchPRsOptions
  defines "run \<equiv> fetchPullRequests list cache now later options"
  assumes miss: "fst (CacheService_get cache now (cacheKeyOf options)) = None"
      and ok: "fst run = Inr result"
  shows "totalFetched (pagination result) = int (length (result_prs result))
       \<and> result_prs result = concat (map (\<lambda>q. itemsOf (list q)) (snd (snd run)))
       \<and> page (pagination result)
           = int (length (filter (\<lambda>q. \<not> zeroItems (list q)) (snd (snd run))))
       \<and> page (pagination result)
           = (if snd (snd run) = [] then 0
              else if zeroItems (list (last (snd (snd run))))
                   then req_page (last (snd (snd run))) - 1
                   else req_page (last (snd (snd run))))"
proof (cases rule: fetch_success_shape[OF miss ok[unfolded run_def]])
  case (1 currentPage)
  note s = 1[folded run_def]
  let ?log = "snd (snd run)"
  let ?nonEmpty = "\<lambda>q. \<not> zeroItems (list q)"
  from s(7) consider
      (empty_page) "?log \<noteq> []" "zeroItems (list (last ?log))" "currentPage = int (length ?log)"
    | (left) "?log \<noteq> [] \<longrightarrow> \<not> zeroItems (list (last ?log))" "currentPage = 1 + int (length ?log)"
    by blast
  then have "page (pagination result) = int (length (filter ?nonEmpty ?log))
       \<and> page (pagination result)
           = (if ?log = [] then 0
              else if zeroItems (list (last ?log)) then req_page (last ?log) - 1
                   else req_page (last ?log))"
  proof cases
    case empty_page
    from s(4) empty_page(1,2) have "filter ?nonEmpty ?log = butlast ?log"
      by (intro filter_all_but_last) auto
    then have "int (length (filter ?nonEmpty ?log)) = int (length ?log) - 1"
      using empty_page(1) by (simp add: of_nat_diff Suc_leI)
    with empty_page s(1) s(5) show ?thesis by simp
  next
    case left
    from s(4) left(1) have "filter ?nonEmpty ?log = ?log"
      by (intro filter_all) auto
    with left s(1) s(5) show ?thesis by simp
  qed
  with s(2) s(6) show ?thesis by blast
qed

theorem fetch_page_totalFetched_witness:
  "fst (CacheService_get (Map.empty :: FetchResult cache) 0 (cacheKeyOf plainOptions)) = None
   \<and> fst (fetchPullRequests twoPageRepo Map.empty 0 1 plainOptions) = Inr \<lparr> result_prs = [mockPR\<lparr> number := 1 \<rparr>, mockPR\<lparr> number := 2 \<rparr>, mockPR\<lparr> number := 3 \<rparr>],
           pagination = \<lparr> page = 2, perPage = 30, hasNextPage = False, totalFetched = 3 \<rparr> \<rparr>
   \<and> snd (snd (fetchPullRequests twoPageRepo Map.empty 0 1 plainOptions)) = [firstRequest plainOptions, (firstRequest plainOptions)\<lparr> req_page := 2 \<rparr>]
   \<and> totalFetched (pagination \<lparr> result_prs = [mockPR\<lparr> number := 1 \<rparr>, mockPR\<lparr> number := 2 \<rparr>, mockPR\<lparr> number := 3 \<rparr>],
           pagination = \<lparr> page = 2, perPage = 30, hasNextPage = False, totalFetched = 3 \<rparr> \<rparr>) = int (length (result_prs \<lparr> result_prs = [mockPR\<lparr> number := 1 \<rparr>, mockPR\<lparr> number := 2 \<rparr>, mockPR\<lparr> number := 3 \<rparr>],
           pagination = \<lparr> page = 2, perPage = 30, hasNextPage = False, totalFetched = 3 \<rparr> \<rparr>))
   \<and> page (pagination \<lparr> result_prs = [mockPR\<lparr> number := 1 \<rparr>, mockPR\<lparr> number := 2 \<rparr>, mockPR\<lparr> number := 3 \<rparr>],
           pagination = \<lparr> page = 2, perPage = 30, hasNextPage = False, totalFetched = 3 \<rparr> \<rparr>) = req_page (last (snd (snd (fetchPullRequests twoPageRepo Map.empty 0 1 plainOptions))))
   \<and> fst (fetchPullRequests emptyRepo Map.empty 0 1 plainOptions) = Inr emptyResult
   \<and> page (pagination emptyResult) = req_page (last (snd (snd (fetchPullRequests emptyRepo Map.empty 0 1 plainOptions)))) - 1"
proof -
  have m: "fst (CacheService_get (Map.empty :: FetchResult cache) 0 k) = None" for k
    by (simp add: CacheService_get_def)
  have ok: "fst (fetchPullRequests twoPageRepo Map.empty 0 1 plainOptions) = Inr \<lparr> result_prs = [mockPR\<lparr> number := 1 \<rparr>, mockPR\<lparr> number := 2 \<rparr>, mockPR\<lparr> number := 3 \<rparr>],
           pagination = \<lparr> page = 2, perPage = 30, hasNextPage = False, totalFetched = 3 \<rparr> \<rparr>"
    by code_simp
  have l: "snd (snd (fetchPullRequests twoPageRepo Map.empty 0 1 plainOptions)) = [firstRequest plainOptions, (firstRequest plainOptions)\<lparr> req_page := 2 \<rparr>]"
    by code_simp
  have nz: "\<not> zeroItems (twoPageRepo ((firstRequest plainOptions)\<lparr> req_page := 2 \<rparr>))"
    by (simp add: zeroItems_def twoPageRepo_def)
  note t = fetch_page_totalFetched[OF m ok]
  from t have a: "totalFetched (pagination \<lparr> result_prs = [mockPR\<lparr> number := 1 \<rparr>, mockPR\<lparr> number := 2 \<rparr>, mockPR\<lparr> number := 3 \<rparr>],
           pagination = \<lparr> page = 2, perPage = 30, hasNextPage = False, totalFetched = 3 \<rparr> \<rparr>) = int (length (result_prs \<lparr> result_prs = [mockPR\<lparr> number := 1 \<rparr>, mockPR\<lparr> number := 2 \<rparr>, mockPR\<lparr> number := 3 \<rparr>],
           pagination = \<lparr> page = 2, perPage = 30, hasNextPage = False, totalFetched = 3 \<rparr> \<rparr>))"
    by blast
  from t have "page (pagination \<lparr> result_prs = [mockPR\<lparr> number := 1 \<rparr>, mockPR\<lparr> number := 2 \<rparr>, mockPR\<lparr> number := 3 \<rparr>],
           pagination = \<lparr> page = 2, perPage = 30, hasNextPage = False, totalFetched = 3 \<rparr> \<rparr>)
           = (if snd (snd (fetchPullRequests twoPageRepo Map.empty 0 1 plainOptions)) = [] then 0
              else if zeroItems (twoPageRepo (last (snd (snd (fetchPullRequests twoPageRepo Map.empty 0 1 plainOptions)))))
                   then req_page (last (snd (snd (fetchPullRequests twoPageRepo Map.empty 0 1 plainOptions)))) - 1
                   else req_page (last (snd (snd (fetchPullRequests twoPageRepo Map.empty 0 1 plainOptions)))))"
    by blast
  with l nz have b: "page (pagination \<lparr> result_prs = [mockPR\<lparr> number := 1 \<rparr>, mockPR\<lparr> number := 2 \<rparr>, mockPR\<lparr> number := 3 \<rparr>],
           pagination = \<lparr> page = 2, perPage = 30, hasNextPage = False, totalFetched = 3 \<rparr> \<rparr>) = req_page (last (snd (snd (fetchPullRequests twoPageRepo Map.empty 0 1 plainOptions))))"
    by simp
  have ok': "fst (fetchPullRequests emptyRepo Map.empty 0 1 plainOptions) = Inr emptyResult"
    by code_simp
  have l': "snd (snd (fetchPullRequests emptyRepo Map.empty 0 1 plainOptions)) = [firstRequest plainOptions]"
    by code_simp
  have z: "zeroItems (emptyRepo (firstRequest plainOptions))"
    by (simp add: zeroItems_def emptyRepo_def)
  from fetch_page_totalFetched[OF m ok']
  have "page (pagination emptyResult)
           = (if snd (snd (fetchPullRequests emptyRepo Map.empty 0 1 plainOptions)) = [] then 0
              else if zeroItems (emptyRepo (last (snd (snd (fetchPullRequests emptyRepo Map.empty 0 1 plainOptions)))))
                   then req_page (last (snd (snd (fetchPullRequests emptyRepo Map.empty 0 1 plainOptions)))) - 1
                   else req_page (last (snd (snd (fetchPullRequests emptyRepo Map.empty 0 1 plainOptions)))))"
    by blast
  with l' z have c: "page (pagination emptyResult) = req_page (last (snd (snd (fetchPullRequests emptyRepo Map.empty 0 1 plainOptions)))) - 1"
    by simp
  from m[of "cacheKeyOf plainOptions"] ok l a b ok' c show ?thesis by blast
qed

subsection \<open>The cache key\<close>

text \<open>
  Claim C5. \<open>generateKey("o","r")\<close> is \<open>o/r\<close> and \<open>generateKey("o","r","x")\<close> is
  \<open>o/r:x\<close>. The key that \<open>fetchPullRequests\<close> computes does not change when
  \<open>perPage\<close> and \<open>maxPages\<close> change, and two calls whose owner, repository, state, sort
  and direction (after the defaults) agree compute the same key. That key is the only one
  under which a call reads or writes the cache: every other key is left as it was.
\<close>

theorem cacheKey_ignores_pagination:
  "generateKey ''o'' ''r'' None = ''o/r''
   \<and> generateKey ''o'' ''r'' (Some ''x'') = ''o/r:x''
   \<and> cacheKeyOf (options\<lparr> perPage_opt := p, maxPages_opt := m \<rparr>) = cacheKeyOf options
   \<and> (owner a = owner b \<and> repo a = repo b
        \<and> (case state_opt a of None \<Rightarrow> ''open'' | Some x \<Rightarrow> x)
            = (case state_opt b of None \<Rightarrow> ''open'' | Some x \<Rightarrow> x)
        \<and> (case sort_opt a of None \<Rightarrow> ''created'' | Some x \<Rightarrow> x)
            = (case sort_opt b of None \<Rightarrow> ''created'' | Some x \<Rightarrow> x)
        \<and> (case direction_opt a of None \<Rightarrow> ''desc'' | Some x \<Rightarrow> x)
            = (case direction_opt b of None \<Rightarrow> ''desc'' | Some x \<Rightarrow> x)
      \<longrightarrow> cacheKeyOf a = cacheKeyOf b)
   \<and> (\<forall>k. k \<noteq> cacheKeyOf options \<longrightarrow>
          fst (snd (fetchPullRequests list cache now later options)) k = cache k)"
proof -
  have 1: "generateKey ''o'' ''r'' None = ''o/r''"
    "generateKey ''o'' ''r'' (Some ''x'') = ''o/r:x''"
    by (simp_all add: generateKey_def)
  have 2: "cacheKeyOf (options\<lparr> perPage_opt := p, maxPages_opt := m \<rparr>) = cacheKeyOf options"
    by (simp add: cacheKeyOf_def)
  have 3: "owner a = owner b \<and> repo a = repo b
        \<and> (case state_opt a of None \<Rightarrow> ''open'' | Some x \<Rightarrow> x)
            = (case state_opt b of None \<Rightarrow> ''open'' | Some x \<Rightarrow> x)
        \<and> (case sort_opt a of None \<Rightarrow> ''created'' | Some x \<Rightarrow> x)
            = (case sort_opt b of None \<Rightarrow> ''created'' | Some x \<Rightarrow> x)
        \<and> (case direction_opt a of None \<Rightarrow> ''desc'' | Some x \<Rightarrow> x)
            = (case direction_opt b of None \<Rightarrow> ''desc'' | Some x \<Rightarrow> x)
      \<longrightarrow> cacheKeyOf a = cacheKeyOf b"
    by (simp add: cacheKeyOf_def)
  have 4: "fst (snd (fetchPullRequests list cache now later options)) k = cache k"
    if "k \<noteq> cacheKeyOf options" for k
  proof (cases rule: fetch_cases[of cache now options list later])
    case (hit h)
    with that show ?thesis by (simp add: get_other)
  next
    case (error e log)
    with that show ?thesis by (simp add: get_other)
  next
    case (ok allPRs currentPage hasNext log)
    with that show ?thesis by (simp add: get_other CacheService_set_def)
  qed
  from 1 2 3 4 show ?thesis by blast
qed

theorem cacheKey_ignores_pagination_witness:
  "cacheKeyOf plainOptions = ''o/r:prs-open-created-desc''
   \<and> cacheKeyOf widerOptions = cacheKeyOf plainOptions
   \<and> ''p/q'' \<noteq> cacheKeyOf plainOptions
   \<and> fst (snd (fetchPullRequests emptyRepo staleCache 5 6 plainOptions)) ''p/q'' = staleCache ''p/q''"
proof -
  have k: "cacheKeyOf plainOptions = ''o/r:prs-open-created-desc''"
    by code_simp
  then have n: "''p/q'' \<noteq> cacheKeyOf plainOptions"
    by simp
  have h: "owner widerOptions = owner plainOptions \<and> repo widerOptions = repo plainOptions
        \<and> (case state_opt widerOptions of None \<Rightarrow> ''open'' | Some x \<Rightarrow> x)
            = (case state_opt plainOptions of None \<Rightarrow> ''open'' | Some x \<Rightarrow> x)
        \<and> (case sort_opt widerOptions of None \<Rightarrow> ''created'' | Some x \<Rightarrow> x)
            = (case sort_opt plainOptions of None \<Rightarrow> ''created'' | Some x \<Rightarrow> x)
        \<and> (case direction_opt widerOptions of None \<Rightarrow> ''desc'' | Some x \<Rightarrow> x)
            = (case direction_opt plainOptions of None \<Rightarrow> ''desc'' | Some x \<Rightarrow> x)"
    by (simp add: widerOptions_def plainOptions_def)
  note t = cacheKey_ignores_pagination[where a = widerOptions and b = plainOptions
             and options = plainOptions and list = emptyRepo and cache = staleCache
             and now = 5 and later = 6]
  from t h have e: "cacheKeyOf widerOptions = cacheKeyOf plainOptions"
    by blast
  from t n have o: "fst (snd (fetchPullRequests emptyRepo staleCache 5 6 plainOptions)) ''p/q''
                      = staleCache ''p/q''"
    by blast
  from k e n o show ?thesis by blast
qed

section \<open>Properties of the presenter\<close>

text \<open>
  Claim C9. For the empty list the presenter returns the \<open>No pull requests found.\<close>
  message (in yellow when colours are on) for every format, \<open>json\<close> included: the test
  for the empty list comes before the \<open>switch\<close> on the format, so the output is never the
  JSON serialization \<open>[]\<close>, whatever the serializer would give.
\<close>

theorem formatPullRequests_empty:
  "formatPullRequests colours stringify formatDetailed formatCompact [] format
     = chalk_yellow colours ''No pull requests found.''
   \<and> formatPullRequests colours stringify formatDetailed formatCompact [] ''json''
     = chalk_yellow colours ''No pull requests found.''
   \<and> str_includes (formatPullRequests colours stringify formatDetailed formatCompact [] format)
        ''No pull requests found.''
   \<and> formatPullRequests colours stringify formatDetailed formatCompact [] format \<noteq> ''[]''"
  by (cases colours) (simp_all add: formatPullRequests_def chalk_yellow_def startsWith_def)

end
